theory Spec2Isabelle
  imports Main
begin

section \<open>Data model\<close>

text \<open>
  The two source files are \<^verbatim>\<open>MakeTransformations.ts\<close> (the replacer and the pass) and
  \<^verbatim>\<open>Transformers.ts\<close> (the Transformer hierarchy, Transformation and its attribute
  kind). TypeScript erases its types: what runs is JavaScript, where a field holds whatever
  value the caller passed. Fields declared \<^verbatim>\<open>Transformer | undefined\<close> are therefore
  modelled as JavaScript values, and a method call on a value that has no such method is
  the \<^verbatim>\<open>TypeError\<close> the runtime raises.
\<close>

datatype error =
    Panic string              \<comment> \<open>\<^verbatim>\<open>panic(message)\<close>\<close>
  | AssertionFailed string    \<comment> \<open>\<^verbatim>\<open>assert(false, message)\<close>\<close>
  | UndefinedValue            \<comment> \<open>\<^verbatim>\<open>defined(undefined)\<close>\<close>
  | TypeError string          \<comment> \<open>the runtime's error for a call of a missing method\<close>
  | BuilderError string       \<comment> \<open>a failure inside the rewrite builder\<close>

text \<open>A TypeRef is a handle on one node of one graph generation.\<close>

datatype typeref = TypeRef (graphOf: nat) (indexOf: nat)

datatype typekind =
  KAny | KNull | KBool | KInteger | KDouble | KString | KArray | KMap | KClass | KEnum | KUnion

text \<open>
  JavaScript values as far as the two files meet them: \<^verbatim>\<open>undefined\<close>, \<^verbatim>\<open>null\<close>, an
  object of no class of this module (told apart by its identity), a TypeRef, a Transformer.
\<close>

datatype jsval =
    Undefined
  | Null
  | Obj nat
  | Ref typeref
  | Xf transformer
and transformer =
    DecodingTransformer
      (nullTransformer: jsval) (integerTransformer: jsval) (doubleTransformer: jsval)
      (boolTransformer: jsval) (stringTransformer: jsval) (arrayTransformer: jsval)
      (objectTransformer: jsval)
  | UnionInstantiationTransformer (unionRef: typeref)

datatype transformation = Transformation (targetTypeRef: typeref) (transformer: transformer)

text \<open>
  An attribute map, keyed by the name of the attribute kind. Only the kind
  \<^verbatim>\<open>"transformation"\<close> belongs to these files; the values of other kinds are opaque.
\<close>

datatype attrvalue = TransformationValue transformation | OpaqueValue string

type_synonym typeattributes = "(string \<times> attrvalue) list"

text \<open>
  A Type as these files see it: its identity (the TypeRef of its node), its kind, its
  attributes and, for a union, its members. \<^verbatim>\<open>t instanceof UnionType\<close> is
  \<open>kind t = KUnion\<close>. The contents of arrays, maps and classes are never read here.
\<close>

datatype type = Type (typeRef: typeref) (kind: typekind) (attributes: typeattributes)
  (members: "type list")

text \<open>Dereferencing a TypeRef yields the pair of the node and its attributes, or fails.\<close>

type_synonym deref = "typeref \<Rightarrow> error + (type \<times> typeattributes)"

subsection \<open>Immutable's OrderedSet\<close>

text \<open>
  An ordered set is a list without duplicates, in insertion order. Two Types are the same
  element when they are the same node; a Type of the model carries the TypeRef of its
  node, and equality of the values stands for it.
\<close>

definition OrderedSet_add :: "'a \<Rightarrow> 'a list \<Rightarrow> 'a list" where
  "OrderedSet_add x xs = (if x \<in> set xs then xs else xs @ [x])"

definition OrderedSet_union :: "'a list \<Rightarrow> 'a list \<Rightarrow> 'a list" where
  "OrderedSet_union xs ys = foldl (\<lambda>acc y. OrderedSet_add y acc) xs ys"

definition OrderedSet :: "'a list \<Rightarrow> 'a list" where
  "OrderedSet xs = OrderedSet_union [] xs"

subsection \<open>Results that may throw\<close>

definition bindE :: "error + 'a \<Rightarrow> ('a \<Rightarrow> error + 'c) \<Rightarrow> error + 'c" where
  "bindE m f = (case m of Inl e \<Rightarrow> Inl e | Inr x \<Rightarrow> f x)"

section \<open>Transformers.ts\<close>

subsection \<open>getChildren\<close>

text \<open>
  \<^verbatim>\<open>get unionType()\<close> of a UnionInstantiationTransformer, given its field
  \<^verbatim>\<open>_unionRef\<close>: dereference it, take component 0, panic unless that is a UnionType.
\<close>

definition unionType :: "deref \<Rightarrow> typeref \<Rightarrow> error + type" where
  "unionType d unionRef' =
     bindE (d unionRef') (\<lambda>p.
       let t = fst p in
       if \<not> (kind t = KUnion) then Inl (Panic ''Union instantiator with the wrong type'')
       else Inr t)"

text \<open>
  One statement of \<^verbatim>\<open>DecodingTransformer.getChildren\<close>:
  \<^verbatim>\<open>if (slot !== undefined) children = children.union(slot.getChildren())\<close>,
  given the outcome of the call \<^verbatim>\<open>slot.getChildren()\<close>.
\<close>

definition unionIfDefined :: "jsval \<Rightarrow> error + type list \<Rightarrow> type list \<Rightarrow> error + type list" where
  "unionIfDefined slot slotChildren children =
     (if slot \<noteq> Undefined
      then bindE slotChildren (\<lambda>c. Inr (OrderedSet_union children c))
      else Inr children)"

text \<open>
  \<open>getChildren\<close> is the method of the two classes; \<open>call_getChildren\<close> is the call
  \<^verbatim>\<open>v.getChildren()\<close> on an arbitrary value, which only a Transformer answers.
\<close>

primrec getChildren :: "deref \<Rightarrow> transformer \<Rightarrow> error + type list"
  and call_getChildren :: "deref \<Rightarrow> jsval \<Rightarrow> error + type list" where
  "getChildren d (DecodingTransformer n i db b s a ob) =
     bindE (unionIfDefined n (call_getChildren d n) []) (\<lambda>children.
     bindE (unionIfDefined i (call_getChildren d i) children) (\<lambda>children.
     bindE (unionIfDefined db (call_getChildren d db) children) (\<lambda>children.
     bindE (unionIfDefined b (call_getChildren d b) children) (\<lambda>children.
     bindE (unionIfDefined s (call_getChildren d s) children) (\<lambda>children.
     bindE (unionIfDefined a (call_getChildren d a) children) (\<lambda>children.
     bindE (unionIfDefined ob (call_getChildren d ob) children) (\<lambda>children.
     Inr children)))))))"
| "getChildren d (UnionInstantiationTransformer r) =
     bindE (unionType d r) (\<lambda>u. Inr (OrderedSet [u]))"
| "call_getChildren d Undefined = Inl (TypeError ''getChildren of undefined'')"
| "call_getChildren d Null = Inl (TypeError ''getChildren of null'')"
| "call_getChildren d (Obj k) = Inl (TypeError ''getChildren is not a function'')"
| "call_getChildren d (Ref r) = Inl (TypeError ''getChildren is not a function'')"
| "call_getChildren d (Xf t) = getChildren d t"

text \<open>\<^verbatim>\<open>Transformation\<close>: \<^verbatim>\<open>targetType\<close> and \<^verbatim>\<open>getChildren\<close>.\<close>

definition targetType :: "deref \<Rightarrow> transformation \<Rightarrow> error + type" where
  "targetType d this = bindE (d (targetTypeRef this)) (\<lambda>p. Inr (fst p))"

definition Transformation_getChildren :: "deref \<Rightarrow> transformation \<Rightarrow> error + type list" where
  "Transformation_getChildren d this =
     bindE (getChildren d (transformer this)) (\<lambda>children.
     bindE (targetType d this) (\<lambda>t. Inr (OrderedSet_add t children)))"

subsection \<open>equals and hashCode\<close>

text \<open>
  \<^verbatim>\<open>TypeRef.equals\<close> is not part of the two files, so \<open>equals\<close> takes it as a
  parameter that may throw. Immutable's \<^verbatim>\<open>is(a, b)\<close> is true for
  \<^verbatim>\<open>a === b\<close>, false when either is \<^verbatim>\<open>undefined\<close> or \<^verbatim>\<open>null\<close>, and otherwise
  \<^verbatim>\<open>a.equals(b)\<close> when both carry \<^verbatim>\<open>equals\<close> and \<^verbatim>\<open>hashCode\<close> (here: TypeRefs and
  Transformers). A value of the model does not record which object it is: the parameter
  \<open>shared\<close> says of which values every occurrence is one and the same object. Two
  occurrences of such a value are \<^verbatim>\<open>===\<close>, and \<^verbatim>\<open>is\<close> returns true at once; two
  occurrences of any other TypeRef or Transformer are two objects, and \<^verbatim>\<open>is\<close> goes on to
  \<^verbatim>\<open>equals\<close>.
\<close>

type_synonym refEquals = "typeref \<Rightarrow> jsval \<Rightarrow> error + bool"

primrec equals :: "refEquals \<Rightarrow> (jsval \<Rightarrow> bool) \<Rightarrow> transformer \<Rightarrow> jsval \<Rightarrow> error + bool"
  and immutable_is :: "refEquals \<Rightarrow> (jsval \<Rightarrow> bool) \<Rightarrow> jsval \<Rightarrow> jsval \<Rightarrow> error + bool" where
  "equals re shared (DecodingTransformer n i db b s a ob) other =
     (case other of
        Xf (DecodingTransformer n' i' db' b' s' a' ob') \<Rightarrow>
          bindE (immutable_is re shared n n') (\<lambda>r. if \<not> r then Inr False else
          bindE (immutable_is re shared i i') (\<lambda>r. if \<not> r then Inr False else
          bindE (immutable_is re shared db db') (\<lambda>r. if \<not> r then Inr False else
          bindE (immutable_is re shared b b') (\<lambda>r. if \<not> r then Inr False else
          bindE (immutable_is re shared s s') (\<lambda>r. if \<not> r then Inr False else
          bindE (immutable_is re shared a a') (\<lambda>r. if \<not> r then Inr False else
          bindE (immutable_is re shared ob ob') (\<lambda>r. if \<not> r then Inr False else
          Inr True)))))))
      | _ \<Rightarrow> Inr False)"
| "equals re shared (UnionInstantiationTransformer r) other =
     (case other of
        Xf (UnionInstantiationTransformer r') \<Rightarrow> re r (Ref r')
      | _ \<Rightarrow> Inr False)"
| "immutable_is re shared Undefined y = Inr (y = Undefined)"
| "immutable_is re shared Null y = Inr (y = Null)"
| "immutable_is re shared (Obj k) y = Inr (y = Obj k)"
| "immutable_is re shared (Ref r) y =
     (if y = Ref r \<and> shared (Ref r) then Inr True
      else case y of Ref r' \<Rightarrow> re r y | Xf t' \<Rightarrow> re r y | _ \<Rightarrow> Inr False)"
| "immutable_is re shared (Xf t) y =
     (if y = Xf t \<and> shared (Xf t) then Inr True
      else case y of
             Ref r' \<Rightarrow> equals re shared t y
           | Xf t' \<Rightarrow> equals re shared t y
           | _ \<Rightarrow> Inr False)"

text \<open>
  Modelled from the spec: \<^verbatim>\<open>TypeRef.equals\<close> (TypeBuilder.ts is not among the sources):
  equality is by node identity, never by structural comparison of the targets.
\<close>

definition TypeRef_equals :: refEquals where
  "TypeRef_equals r other = Inr (other = Ref r)"

text \<open>
  The constants \<^verbatim>\<open>hashCodeInit\<close> and \<^verbatim>\<open>addHashCode\<close> of Support.ts and
  \<^verbatim>\<open>TypeRef.hashCode\<close> are parameters. So is what Immutable's \<^verbatim>\<open>hash\<close> does: the
  hashes it gives \<^verbatim>\<open>undefined\<close>, \<^verbatim>\<open>null\<close> and a plain object, and the fold \<open>smi\<close> to a
  small integer that it applies to the result of \<^verbatim>\<open>hashCode()\<close> where the value has
  that method.
\<close>

record hashing =
  hashCodeInit :: int
  addHashCode :: "int \<Rightarrow> int \<Rightarrow> int"
  TypeRef_hashCode :: "typeref \<Rightarrow> int"
  undefinedHash :: int
  nullHash :: int
  objectHash :: "nat \<Rightarrow> int"
  smi :: "int \<Rightarrow> int"

primrec hashCode :: "hashing \<Rightarrow> transformer \<Rightarrow> int"
  and immutable_hash :: "hashing \<Rightarrow> jsval \<Rightarrow> int" where
  "hashCode hp (DecodingTransformer n i db b s a ob) =
     (let h = hashCodeInit hp;
          h = addHashCode hp h (immutable_hash hp n);
          h = addHashCode hp h (immutable_hash hp i);
          h = addHashCode hp h (immutable_hash hp db);
          h = addHashCode hp h (immutable_hash hp b);
          h = addHashCode hp h (immutable_hash hp s);
          h = addHashCode hp h (immutable_hash hp a);
          h = addHashCode hp h (immutable_hash hp ob)
      in h)"
| "hashCode hp (UnionInstantiationTransformer r) = TypeRef_hashCode hp r"
| "immutable_hash hp Undefined = undefinedHash hp"
| "immutable_hash hp Null = nullHash hp"
| "immutable_hash hp (Obj k) = objectHash hp k"
| "immutable_hash hp (Ref r) = smi hp (TypeRef_hashCode hp r)"
| "immutable_hash hp (Xf t) = smi hp (hashCode hp t)"

subsection \<open>The rewrite builder as the two files use it\<close>

text \<open>
  A builder call reads and changes the builder and may throw; what it changed stays
  changed after a throw. \<open>'b\<close> is the builder's state.
\<close>

type_synonym ('a, 'b) build = "'b \<Rightarrow> (error + 'a) \<times> 'b"

definition returnB :: "'a \<Rightarrow> ('a, 'b) build" where
  "returnB x = (\<lambda>s. (Inr x, s))"

definition throwB :: "error \<Rightarrow> ('a, 'b) build" where
  "throwB e = (\<lambda>s. (Inl e, s))"

definition bindB :: "('a, 'b) build \<Rightarrow> ('a \<Rightarrow> ('c, 'b) build) \<Rightarrow> ('c, 'b) build" where
  "bindB m f = (\<lambda>s. case m s of (Inl e, s') \<Rightarrow> (Inl e, s') | (Inr x, s') \<Rightarrow> f x s')"

text \<open>
  GraphRewriting.ts is not among the sources: the four builder methods the two files call
  are the fields of a record, so that every statement about the files holds for whatever
  the builder does.
\<close>

record 'b GraphRewriteBuilder =
  reconstituteType :: "type \<Rightarrow> (typeref, 'b) build"
  reconstituteTypeRef :: "typeref \<Rightarrow> (typeref, 'b) build"
  getUnionType :: "typeattributes \<Rightarrow> typeref list \<Rightarrow> (typeref, 'b) build"
  getPrimitiveType :: "typekind \<Rightarrow> typeattributes option \<Rightarrow> typeref option \<Rightarrow> (typeref, 'b) build"

subsection \<open>reconstitute\<close>

text \<open>
  \<open>reconstitute\<close> is the method of the two classes; \<open>reconstitute_local\<close> is the local
  function of \<^verbatim>\<open>DecodingTransformer.reconstitute\<close>, which returns \<^verbatim>\<open>undefined\<close> for
  \<^verbatim>\<open>undefined\<close> and otherwise calls \<^verbatim>\<open>xf.reconstitute(builder)\<close>. The seven arguments of
  \<^verbatim>\<open>new DecodingTransformer\<close> are evaluated from left to right.
\<close>

primrec reconstitute :: "'b GraphRewriteBuilder \<Rightarrow> transformer \<Rightarrow> (transformer, 'b) build"
  and reconstitute_local :: "'b GraphRewriteBuilder \<Rightarrow> jsval \<Rightarrow> (jsval, 'b) build" where
  "reconstitute builder (DecodingTransformer n i db b s a ob) =
     bindB (reconstitute_local builder n) (\<lambda>n'.
     bindB (reconstitute_local builder i) (\<lambda>i'.
     bindB (reconstitute_local builder db) (\<lambda>db'.
     bindB (reconstitute_local builder b) (\<lambda>b'.
     bindB (reconstitute_local builder s) (\<lambda>s'.
     bindB (reconstitute_local builder a) (\<lambda>a'.
     bindB (reconstitute_local builder ob) (\<lambda>ob'.
     returnB (DecodingTransformer n' i' db' b' s' a' ob'))))))))"
| "reconstitute builder (UnionInstantiationTransformer r) =
     bindB (reconstituteTypeRef builder r) (\<lambda>r'. returnB (UnionInstantiationTransformer r'))"
| "reconstitute_local builder Undefined = returnB Undefined"
| "reconstitute_local builder Null = throwB (TypeError ''reconstitute of null'')"
| "reconstitute_local builder (Obj k) = throwB (TypeError ''reconstitute is not a function'')"
| "reconstitute_local builder (Ref r) = throwB (TypeError ''reconstitute is not a function'')"
| "reconstitute_local builder (Xf t) = bindB (reconstitute builder t) (\<lambda>t'. returnB (Xf t'))"

definition Transformation_reconstitute ::
  "'b GraphRewriteBuilder \<Rightarrow> transformation \<Rightarrow> (transformation, 'b) build" where
  "Transformation_reconstitute builder this =
     bindB (reconstituteTypeRef builder (targetTypeRef this)) (\<lambda>r'.
     bindB (reconstitute builder (transformer this)) (\<lambda>x'.
     returnB (Transformation r' x')))"

subsection \<open>The attribute kind\<close>

text \<open>
  Modelled from the spec: \<^verbatim>\<open>makeAttributes\<close> and \<^verbatim>\<open>tryGetInAttributes\<close> of
  TypeAttributeKind (TypeAttributes.ts is not among the sources): the singleton map of
  the kind, and the lookup by kind.
\<close>

definition makeAttributes :: "transformation \<Rightarrow> typeattributes" where
  "makeAttributes xf = [(''transformation'', TransformationValue xf)]"

definition tryGetInAttributes :: "typeattributes \<Rightarrow> transformation option" where
  "tryGetInAttributes attrs =
     (case map_of attrs ''transformation'' of
        Some (TransformationValue xf) \<Rightarrow> Some xf
      | _ \<Rightarrow> None)"

definition transformationForType :: "type \<Rightarrow> transformation option" where
  "transformationForType t = tryGetInAttributes (attributes t)"

subsection \<open>The constructors as JavaScript calls\<close>

text \<open>
  A JavaScript call binds its arguments to the declared parameters by position: a
  parameter beyond the arguments is \<^verbatim>\<open>undefined\<close>, an argument beyond the parameters is
  evaluated and dropped. The constructor of DecodingTransformer declares seven parameters,
  \<^verbatim>\<open>nullTransformer\<close> first.
\<close>

definition argument :: "jsval list \<Rightarrow> nat \<Rightarrow> jsval" where
  "argument args k = (if k < length args then args ! k else Undefined)"

definition new_DecodingTransformer :: "jsval list \<Rightarrow> transformer" where
  "new_DecodingTransformer args =
     DecodingTransformer (argument args 0) (argument args 1) (argument args 2)
       (argument args 3) (argument args 4) (argument args 5) (argument args 6)"

text \<open>
  The constructor of UnionInstantiationTransformer declares the one parameter
  \<^verbatim>\<open>_unionRef\<close>: it keeps the first argument; \<open>further\<close> are the arguments after it.
\<close>

definition new_UnionInstantiationTransformer :: "typeref \<Rightarrow> typeref list \<Rightarrow> transformer" where
  "new_UnionInstantiationTransformer unionRef' further = UnionInstantiationTransformer unionRef'"

section \<open>MakeTransformations.ts\<close>

text \<open>
  Modelled from the spec: \<^verbatim>\<open>defined\<close> and \<^verbatim>\<open>assert\<close> of Support.ts and
  \<^verbatim>\<open>UnionType.findMember\<close> of Type.ts (neither file is among the sources). An invariant
  violation aborts synchronously; the members of a union are keyed by kind, and
  \<^verbatim>\<open>findMember(kind)\<close> is the member of that kind if there is one.
  \<^verbatim>\<open>Set.first()\<close> and \<^verbatim>\<open>map\<close> are Immutable's: the first element if there is one, and
  the ordered set of the callback's results, the callback being run element by element.
\<close>

definition defined :: "'a option \<Rightarrow> ('a, 'b) build" where
  "defined x = (case x of None \<Rightarrow> throwB UndefinedValue | Some v \<Rightarrow> returnB v)"

definition assert :: "bool \<Rightarrow> string \<Rightarrow> (unit, 'b) build" where
  "assert condition message = (if \<not> condition then throwB (AssertionFailed message) else returnB ())"

definition first :: "'a list \<Rightarrow> 'a option" where
  "first xs = (case xs of [] \<Rightarrow> None | x # _ \<Rightarrow> Some x)"

definition findMember :: "type \<Rightarrow> typekind \<Rightarrow> type option" where
  "findMember u k = find (\<lambda>t. kind t = k) (members u)"

primrec mapB :: "('a \<Rightarrow> ('c, 'b) build) \<Rightarrow> 'a list \<Rightarrow> ('c list, 'b) build" where
  "mapB f [] = returnB []"
| "mapB f (x # xs) = bindB (f x) (\<lambda>y. bindB (mapB f xs) (\<lambda>ys. returnB (y # ys)))"

text \<open>The local function \<^verbatim>\<open>transformerForKind\<close> of \<^verbatim>\<open>replace\<close>, with the variables it closes over.\<close>

definition transformerForKind ::
  "'b GraphRewriteBuilder \<Rightarrow> type \<Rightarrow> typeref \<Rightarrow> typekind \<Rightarrow> (jsval, 'b) build" where
  "transformerForKind builder union' reconstitutedUnion kind' =
     (case findMember union' kind' of
        None \<Rightarrow> returnB Undefined
      | Some member \<Rightarrow>
          bindB (reconstituteType builder member) (\<lambda>r.
          returnB (Xf (new_UnionInstantiationTransformer r [reconstitutedUnion]))))"

definition replace ::
  "type list \<Rightarrow> 'b GraphRewriteBuilder \<Rightarrow> typeref \<Rightarrow> (typeref, 'b) build" where
  "replace setOfOneUnion builder forwardingRef =
     bindB (defined (first setOfOneUnion)) (\<lambda>union'.
     bindB (assert (\<not> (members union' = [])) ''We can't have empty unions'') (\<lambda>_.
     bindB (mapB (\<lambda>m. reconstituteType builder m) (members union')) (\<lambda>mapped.
     bindB (getUnionType builder (attributes union') (OrderedSet mapped)) (\<lambda>reconstitutedUnion.
     bindB (getPrimitiveType builder KAny None None) (\<lambda>a0.
     bindB (transformerForKind builder union' reconstitutedUnion KNull) (\<lambda>a1.
     bindB (transformerForKind builder union' reconstitutedUnion KInteger) (\<lambda>a2.
     bindB (transformerForKind builder union' reconstitutedUnion KDouble) (\<lambda>a3.
     bindB (transformerForKind builder union' reconstitutedUnion KBool) (\<lambda>a4.
     bindB (transformerForKind builder union' reconstitutedUnion KString) (\<lambda>a5.
     let transformer = new_DecodingTransformer [Ref a0, a1, a2, a3, a4, a5, Undefined, Undefined];
         transformation = Transformation reconstitutedUnion transformer;
         attributes = makeAttributes transformation
     in getPrimitiveType builder KAny (Some attributes) (Some forwardingRef)))))))))))"

section \<open>A rewrite builder to run the replacer on\<close>

text \<open>
  Modelled from the spec: the four methods of GraphRewriteBuilder (GraphRewriting.ts is not
  among the sources), after section 4.2 of the specification. The state is the new
  generation (the nodes bound so far, by reference), the next free index in it, and the
  per-pass cache from old references to their images. \<open>reconstituteType\<close> returns the
  cached image of a node or copies the node, its members first; the attributes of the
  graphs given to this pass hold no reference and are carried over as they are.
  \<open>getUnionType\<close> asserts that there is a member and that the member kinds are distinct.
  \<open>getPrimitiveType\<close> writes into the forwarding slot when given one and allocates a
  node otherwise.
\<close>

record rewriteState =
  generation :: nat
  nodes :: "(typeref \<times> type) list"
  nextIndex :: nat
  reconstituted :: "(typeref \<times> typeref) list"
  oldNodes :: "(typeref \<times> type) list"

definition derefIn :: "(typeref \<times> type) list \<Rightarrow> deref" where
  "derefIn g r =
     (case map_of g r of
        None \<Rightarrow> Inl (BuilderError ''unbound reference'')
      | Some t \<Rightarrow> Inr (t, attributes t))"

definition addType :: "typekind \<Rightarrow> typeattributes \<Rightarrow> type list \<Rightarrow> (typeref, rewriteState) build" where
  "addType k attrs ms s =
     (let r = TypeRef (generation s) (nextIndex s)
      in (Inr r, s\<lparr>nodes := nodes s @ [(r, Type r k attrs ms)], nextIndex := Suc (nextIndex s)\<rparr>))"

definition derefAll :: "typeref list \<Rightarrow> (type list, rewriteState) build" where
  "derefAll rs = mapB (\<lambda>r s. (case derefIn (nodes s) r of Inl e \<Rightarrow> (Inl e, s) | Inr p \<Rightarrow> (Inr (fst p), s))) rs"

fun spec_reconstituteType :: "type \<Rightarrow> (typeref, rewriteState) build"
  and spec_reconstituteTypes :: "type list \<Rightarrow> (typeref list, rewriteState) build" where
  "spec_reconstituteType (Type r k attrs ms) =
     (\<lambda>s. case map_of (reconstituted s) r of
        Some r' \<Rightarrow> (Inr r', s)
      | None \<Rightarrow>
          bindB (spec_reconstituteTypes ms) (\<lambda>rs.
          bindB (derefAll rs) (\<lambda>ms'.
          bindB (addType k attrs ms') (\<lambda>r'.
          (\<lambda>s'. (Inr r', s'\<lparr>reconstituted := reconstituted s' @ [(r, r')]\<rparr>))))) s)"
| "spec_reconstituteTypes [] = returnB []"
| "spec_reconstituteTypes (m # ms) =
     bindB (spec_reconstituteType m) (\<lambda>r. bindB (spec_reconstituteTypes ms) (\<lambda>rs. returnB (r # rs)))"

definition spec_reconstituteTypeRef :: "typeref \<Rightarrow> (typeref, rewriteState) build" where
  "spec_reconstituteTypeRef r s =
     (case map_of (oldNodes s) r of
        None \<Rightarrow> (Inl (BuilderError ''unbound reference''), s)
      | Some t \<Rightarrow> spec_reconstituteType t s)"

definition spec_getUnionType :: "typeattributes \<Rightarrow> typeref list \<Rightarrow> (typeref, rewriteState) build" where
  "spec_getUnionType attrs memberRefs =
     bindB (derefAll memberRefs) (\<lambda>ms.
     bindB (assert (\<not> (ms = [])) ''empty union'') (\<lambda>_.
     bindB (assert (distinct (map kind ms)) ''duplicate member kinds'') (\<lambda>_.
     addType KUnion attrs ms)))"

definition spec_getPrimitiveType ::
  "typekind \<Rightarrow> typeattributes option \<Rightarrow> typeref option \<Rightarrow> (typeref, rewriteState) build" where
  "spec_getPrimitiveType k attrs forwardingRef =
     (let a = (case attrs of None \<Rightarrow> [] | Some a \<Rightarrow> a)
      in case forwardingRef of
           None \<Rightarrow> addType k a []
         | Some r \<Rightarrow> (\<lambda>s. (Inr r, s\<lparr>nodes := nodes s @ [(r, Type r k a [])]\<rparr>)))"

definition specBuilder :: "rewriteState GraphRewriteBuilder" where
  "specBuilder =
     \<lparr> reconstituteType = spec_reconstituteType,
       reconstituteTypeRef = spec_reconstituteTypeRef,
       getUnionType = spec_getUnionType,
       getPrimitiveType = spec_getPrimitiveType \<rparr>"

section \<open>Notions of the specification\<close>

text \<open>
  A Transformer is well typed when every slot holds what its declaration allows,
  \<^verbatim>\<open>Transformer | undefined\<close>, all the way down.
\<close>

primrec wellTyped :: "transformer \<Rightarrow> bool"
  and wellTypedSlot :: "jsval \<Rightarrow> bool" where
  "wellTyped (DecodingTransformer n i db b s a ob) =
     (wellTypedSlot n \<and> wellTypedSlot i \<and> wellTypedSlot db \<and> wellTypedSlot b \<and>
      wellTypedSlot s \<and> wellTypedSlot a \<and> wellTypedSlot ob)"
| "wellTyped (UnionInstantiationTransformer r) = True"
| "wellTypedSlot Undefined = True"
| "wellTypedSlot Null = False"
| "wellTypedSlot (Obj k) = False"
| "wellTypedSlot (Ref r) = False"
| "wellTypedSlot (Xf t) = wellTyped t"

text \<open>\<open>sameVariant t x\<close>: the value \<open>x\<close> is an instance of the concrete class of \<open>t\<close>.\<close>

fun sameVariant :: "transformer \<Rightarrow> jsval \<Rightarrow> bool" where
  "sameVariant (DecodingTransformer n i db b s a ob)
     (Xf (DecodingTransformer n' i' db' b' s' a' ob')) = True"
| "sameVariant (UnionInstantiationTransformer r) (Xf (UnionInstantiationTransformer r')) = True"
| "sameVariant t x = False"

text \<open>The sub-transformer slots of a Transformer, in the order of declaration.\<close>

primrec slots :: "transformer \<Rightarrow> jsval list" where
  "slots (DecodingTransformer n i db b s a ob) = [n, i, db, b, s, a, ob]"
| "slots (UnionInstantiationTransformer r) = []"

text \<open>
  The children a slot contributes according to the specification: those of the
  sub-transformer it holds, none when it is empty.
\<close>

definition slotChildren :: "deref \<Rightarrow> jsval \<Rightarrow> type set" where
  "slotChildren d v =
     (case v of
        Xf t \<Rightarrow> (case getChildren d t of Inr c \<Rightarrow> set c | Inl e \<Rightarrow> {})
      | _ \<Rightarrow> {})"

text \<open>A slot answers when it is empty or holds a Transformer whose \<open>getChildren\<close> returns.\<close>

definition slotAnswers :: "deref \<Rightarrow> jsval \<Rightarrow> bool" where
  "slotAnswers d v =
     (case v of
        Undefined \<Rightarrow> True
      | Xf t \<Rightarrow> (case getChildren d t of Inr c \<Rightarrow> True | Inl e \<Rightarrow> False)
      | _ \<Rightarrow> False)"

text \<open>
  The reconstitution the specification describes, for a builder that sends each TypeRef
  \<open>r\<close> to \<open>f r\<close>: every TypeRef replaced by its image, every nested Transformer by its own
  reconstitution, nothing else changed.
\<close>

primrec imageUnder :: "(typeref \<Rightarrow> typeref) \<Rightarrow> transformer \<Rightarrow> transformer"
  and imageUnderSlot :: "(typeref \<Rightarrow> typeref) \<Rightarrow> jsval \<Rightarrow> jsval" where
  "imageUnder f (DecodingTransformer n i db b s a ob) =
     DecodingTransformer (imageUnderSlot f n) (imageUnderSlot f i) (imageUnderSlot f db)
       (imageUnderSlot f b) (imageUnderSlot f s) (imageUnderSlot f a) (imageUnderSlot f ob)"
| "imageUnder f (UnionInstantiationTransformer r) = UnionInstantiationTransformer (f r)"
| "imageUnderSlot f Undefined = Undefined"
| "imageUnderSlot f Null = Null"
| "imageUnderSlot f (Obj k) = Obj k"
| "imageUnderSlot f (Ref r) = Ref r"
| "imageUnderSlot f (Xf t) = Xf (imageUnder f t)"

text \<open>
  The TypeRefs a Transformer holds, in the order in which \<^verbatim>\<open>reconstitute\<close> meets them:
  slot by slot, from left to right.
\<close>

primrec refList :: "transformer \<Rightarrow> typeref list"
  and refListSlot :: "jsval \<Rightarrow> typeref list" where
  "refList (DecodingTransformer n i db b s a ob) =
     refListSlot n @ refListSlot i @ refListSlot db @ refListSlot b @
     refListSlot s @ refListSlot a @ refListSlot ob"
| "refList (UnionInstantiationTransformer r) = [r]"
| "refListSlot Undefined = []"
| "refListSlot Null = []"
| "refListSlot (Obj k) = []"
| "refListSlot (Ref r) = []"
| "refListSlot (Xf t) = refList t"

text \<open>
  The shape of a Transformer is what is left of it when every TypeRef it holds is blanked:
  the variant, which slots are empty, and the shapes of the sub-transformers.
\<close>

definition shape :: "transformer \<Rightarrow> transformer" where
  "shape t = imageUnder (\<lambda>r. TypeRef 0 0) t"

definition shapeSlot :: "jsval \<Rightarrow> jsval" where
  "shapeSlot v = imageUnderSlot (\<lambda>r. TypeRef 0 0) v"

text \<open>
  For the builder modelled above: its cache as a map; the TypeRefs of the members of a
  Type, all the way down; and an old generation in which every node sits at its own
  TypeRef and is not among its own members.
\<close>

definition cacheOf :: "rewriteState \<Rightarrow> typeref \<rightharpoonup> typeref" where
  "cacheOf s = map_of (reconstituted s)"

fun memberIds :: "type \<Rightarrow> typeref set" where
  "memberIds (Type r k a ms) = (\<Union>m \<in> set ms. insert (typeRef m) (memberIds m))"

definition oldGraphOk :: "rewriteState \<Rightarrow> bool" where
  "oldGraphOk s = (\<forall>(r, t) \<in> set (oldNodes s). typeRef t = r \<and> r \<notin> memberIds t)"

section \<open>Scenarios\<close>

text \<open>
  Scenario A of the specification is the union \<^verbatim>\<open>integer | string\<close>, scenario B the union
  \<^verbatim>\<open>null | integer | double | bool | string\<close>. The old generation is graph 0, the new one
  graph 1, whose slot 0 is the forwarding reference of the one group.
\<close>

definition primitive :: "nat \<Rightarrow> typekind \<Rightarrow> type" where
  "primitive k knd = Type (TypeRef 0 k) knd [] []"

definition unionA :: type where
  "unionA = Type (TypeRef 0 2) KUnion [] [primitive 0 KInteger, primitive 1 KString]"

definition unionB :: type where
  "unionB = Type (TypeRef 0 5) KUnion []
     [primitive 0 KNull, primitive 1 KInteger, primitive 2 KDouble, primitive 3 KBool,
      primitive 4 KString]"

definition emptyUnion :: type where
  "emptyUnion = Type (TypeRef 0 0) KUnion [] []"

definition initialState :: "type \<Rightarrow> rewriteState" where
  "initialState u =
     \<lparr> generation = 1, nodes = [], nextIndex = 1, reconstituted = [],
       oldNodes = map (\<lambda>t. (typeRef t, t)) (members u @ [u]) \<rparr>"

definition runReplace :: "type \<Rightarrow> (error + typeref) \<times> rewriteState" where
  "runReplace u = replace [u] specBuilder (TypeRef 1 0) (initialState u)"

definition newGraph :: "type \<Rightarrow> deref" where
  "newGraph u = derefIn (nodes (snd (runReplace u)))"

text \<open>The Transformation on the node that the replacer returned, if there is one.\<close>

definition placeholderTransformation :: "type \<Rightarrow> transformation option" where
  "placeholderTransformation u =
     (case fst (runReplace u) of
        Inl e \<Rightarrow> None
      | Inr r \<Rightarrow> (case newGraph u r of Inl e \<Rightarrow> None | Inr p \<Rightarrow> transformationForType (fst p)))"

text \<open>
  The Transformer the specification describes for a union whose scalar members are
  \<open>ks\<close> and whose target is \<open>target\<close>: a UnionInstantiationTransformer on the target in
  each slot of \<open>ks\<close>.
\<close>

definition instantiatorIf :: "typekind list \<Rightarrow> typekind \<Rightarrow> typeref \<Rightarrow> jsval" where
  "instantiatorIf ks k target =
     (if k \<in> set ks then Xf (UnionInstantiationTransformer target) else Undefined)"

definition describedTransformer :: "typekind list \<Rightarrow> typeref \<Rightarrow> transformer" where
  "describedTransformer ks target =
     DecodingTransformer (instantiatorIf ks KNull target) (instantiatorIf ks KInteger target)
       (instantiatorIf ks KDouble target) (instantiatorIf ks KBool target)
       (instantiatorIf ks KString target) Undefined Undefined"

text \<open>
  A later pass: graph 1 is the old generation, and the cache of the builder already holds
  the images of its three nodes.
\<close>

definition laterState :: rewriteState where
  "laterState =
     \<lparr> generation = 2,
       nodes =
         [(TypeRef 2 0, Type (TypeRef 2 0) KInteger [] []),
          (TypeRef 2 1, Type (TypeRef 2 1) KString [] []),
          (TypeRef 2 2, Type (TypeRef 2 2) KUnion []
             [Type (TypeRef 2 0) KInteger [] [], Type (TypeRef 2 1) KString [] []])],
       nextIndex = 3,
       reconstituted =
         [(TypeRef 1 1, TypeRef 2 0), (TypeRef 1 2, TypeRef 2 1), (TypeRef 1 3, TypeRef 2 2)],
       oldNodes =
         [(TypeRef 1 1, Type (TypeRef 1 1) KInteger [] []),
          (TypeRef 1 2, Type (TypeRef 1 2) KString [] []),
          (TypeRef 1 3, Type (TypeRef 1 3) KUnion []
             [Type (TypeRef 1 1) KInteger [] [], Type (TypeRef 1 2) KString [] []])] \<rparr>"

text \<open>
  A pass over an old generation with two unions, \<^verbatim>\<open>integer | string\<close> and
  \<^verbatim>\<open>null | string\<close>, nothing reconstituted yet; and a DecodingTransformer with an
  instantiator on the union \<open>u1\<close> in the null slot and one on the union \<open>u2\<close> in the
  integer and string slots.
\<close>

definition unionN :: type where
  "unionN = Type (TypeRef 0 4) KUnion [] [primitive 3 KNull, primitive 1 KString]"

definition twoUnionsState :: rewriteState where
  "twoUnionsState =
     \<lparr> generation = 1, nodes = [], nextIndex = 0, reconstituted = [],
       oldNodes = map (\<lambda>t. (typeRef t, t))
         [primitive 0 KInteger, primitive 1 KString, unionA, primitive 3 KNull, unionN] \<rparr>"

definition onTwoUnions :: "typeref \<Rightarrow> typeref \<Rightarrow> transformer" where
  "onTwoUnions u1 u2 =
     DecodingTransformer (Xf (UnionInstantiationTransformer u1))
       (Xf (UnionInstantiationTransformer u2)) Undefined Undefined
       (Xf (UnionInstantiationTransformer u2)) Undefined Undefined"

text \<open>Hash parameters to run \<open>hashCode\<close> on.\<close>

definition sampleHashing :: hashing where
  "sampleHashing =
     \<lparr> hashCodeInit = 17, addHashCode = (\<lambda>acc h. acc * 31 + h),
       TypeRef_hashCode = (\<lambda>r. int (indexOf r)), undefinedHash = 0, nullHash = 0,
       objectHash = (\<lambda>k. int k), smi = (\<lambda>h. h mod 2 ^ 30) \<rparr>"

text \<open>The new generation of the later pass, and the union in it.\<close>

definition laterGraph :: deref where
  "laterGraph = derefIn (nodes laterState)"

definition laterUnion :: type where
  "laterUnion = Type (TypeRef 2 2) KUnion []
     [Type (TypeRef 2 0) KInteger [] [], Type (TypeRef 2 1) KString [] []]"

text \<open>The union that the builder makes of the reconstituted members in scenario B.\<close>

definition reconstitutedB :: type where
  "reconstitutedB = Type (TypeRef 1 6) KUnion []
     [Type (TypeRef 1 1) KNull [] [], Type (TypeRef 1 2) KInteger [] [],
      Type (TypeRef 1 3) KDouble [] [], Type (TypeRef 1 4) KBool [] [],
      Type (TypeRef 1 5) KString [] []]"

text \<open>A \<^verbatim>\<open>TypeRef.equals\<close> that throws whenever it is called.\<close>

definition throwingRefEquals :: refEquals where
  "throwingRefEquals r other = Inl (AssertionFailed ''Comparing type refs of different graphs'')"

section \<open>Lemmas\<close>

lemma new_DecodingTransformer_eight:
  "new_DecodingTransformer [a0, a1, a2, a3, a4, a5, a6, a7] =
     DecodingTransformer a0 a1 a2 a3 a4 a5 a6"
  by (simp add: new_DecodingTransformer_def argument_def)

lemma transformerForKind_member:
  "findMember u k = Some m \<Longrightarrow> reconstituteType builder m s = (Inr r, s') \<Longrightarrow>
     transformerForKind builder u target k s = (Inr (Xf (UnionInstantiationTransformer r)), s')"
  by (simp add: transformerForKind_def bindB_def returnB_def new_UnionInstantiationTransformer_def)

lemma set_OrderedSet_add: "set (OrderedSet_add x xs) = insert x (set xs)"
  by (auto simp: OrderedSet_add_def)

lemma distinct_OrderedSet_add: "distinct xs \<Longrightarrow> distinct (OrderedSet_add x xs)"
  by (simp add: OrderedSet_add_def)

lemma set_OrderedSet_union: "set (OrderedSet_union xs ys) = set xs \<union> set ys"
  unfolding OrderedSet_union_def
  by (induction ys arbitrary: xs) (auto simp: set_OrderedSet_add)

lemma distinct_OrderedSet_union: "distinct xs \<Longrightarrow> distinct (OrderedSet_union xs ys)"
  unfolding OrderedSet_union_def
  by (induction ys arbitrary: xs) (auto simp: distinct_OrderedSet_add)

lemma OrderedSet_singleton: "OrderedSet [x] = [x]"
  by (simp add: OrderedSet_def OrderedSet_union_def OrderedSet_add_def)

lemma bindE_Inr_iff: "bindE m f = Inr y \<longleftrightarrow> (\<exists>x. m = Inr x \<and> f x = Inr y)"
  by (cases m) (auto simp: bindE_def)

lemma step_set:
  "unionIfDefined v (call_getChildren d v) children = Inr cs \<Longrightarrow>
     set cs = set children \<union> slotChildren d v \<and> (distinct children \<longrightarrow> distinct cs) \<and> slotAnswers d v"
  by (cases v) (auto simp: unionIfDefined_def bindE_def slotChildren_def slotAnswers_def set_OrderedSet_union distinct_OrderedSet_union split: sum.splits if_splits)

lemma step_ok:
  "slotAnswers d v \<Longrightarrow> \<exists>cs. unionIfDefined v (call_getChildren d v) children = Inr cs"
  by (cases v) (auto simp: unionIfDefined_def bindE_def slotAnswers_def split: sum.splits)

lemma DT_children:
  assumes "getChildren d (DecodingTransformer n i db b s a ob) = Inr cs"
  shows "distinct cs \<and> set cs = slotChildren d n \<union> slotChildren d i \<union> slotChildren d db \<union> slotChildren d b
            \<union> slotChildren d s \<union> slotChildren d a \<union> slotChildren d ob"
proof -
  from assms obtain c1 c2 c3 c4 c5 c6 where
    1: "unionIfDefined n (call_getChildren d n) [] = Inr c1" and
    2: "unionIfDefined i (call_getChildren d i) c1 = Inr c2" and
    3: "unionIfDefined db (call_getChildren d db) c2 = Inr c3" and
    4: "unionIfDefined b (call_getChildren d b) c3 = Inr c4" and
    5: "unionIfDefined s (call_getChildren d s) c4 = Inr c5" and
    6: "unionIfDefined a (call_getChildren d a) c5 = Inr c6" and
    7: "unionIfDefined ob (call_getChildren d ob) c6 = Inr cs"
    by (auto simp: bindE_Inr_iff)
  note s = step_set[OF 1] step_set[OF 2] step_set[OF 3] step_set[OF 4] step_set[OF 5] step_set[OF 6] step_set[OF 7]
  from s show ?thesis by auto
qed

lemma getChildren_distinct: "getChildren d t = Inr cs \<Longrightarrow> distinct cs"
proof (cases t)
  case (DecodingTransformer n i db b s a ob)
  assume "getChildren d t = Inr cs"
  with DecodingTransformer show ?thesis using DT_children by blast
next
  case (UnionInstantiationTransformer r)
  assume "getChildren d t = Inr cs"
  with UnionInstantiationTransformer show ?thesis
    by (auto simp: bindE_Inr_iff OrderedSet_singleton)
qed

lemma UIT_children:
  "d r = Inr (u, at) \<Longrightarrow> kind u = KUnion \<Longrightarrow> getChildren d (UnionInstantiationTransformer r) = Inr [u]"
  by (simp add: unionType_def bindE_def OrderedSet_singleton)

lemma OrderedSet_add_only:
  assumes "distinct xs" "set xs \<subseteq> {t}"
  shows "OrderedSet_add t xs = [t]"
proof (cases xs)
  case Nil
  then show ?thesis by (simp add: OrderedSet_add_def)
next
  case (Cons y ys)
  with assms have "y = t" and "set ys \<subseteq> {t}" and "y \<notin> set ys" by auto
  then have "ys = []" by (cases ys) auto
  with Cons \<open>y = t\<close> show ?thesis by (simp add: OrderedSet_add_def)
qed

lemma slot_instantiator:
  assumes "d r = Inr (u, at)" "kind u = KUnion" "set children \<subseteq> {u}" "distinct children"
  shows "\<exists>cs. unionIfDefined (instantiatorIf ks k r) (call_getChildren d (instantiatorIf ks k r)) children = Inr cs
      \<and> distinct cs \<and> set cs \<subseteq> {u}"
proof (cases "k \<in> set ks")
  case True
  have "call_getChildren d (Xf (UnionInstantiationTransformer r)) = Inr [u]"
    using UIT_children[of d r u at] assms(1,2) by simp
  with True have "unionIfDefined (instantiatorIf ks k r) (call_getChildren d (instantiatorIf ks k r)) children
      = Inr (OrderedSet_union children [u])"
    by (simp add: instantiatorIf_def unionIfDefined_def bindE_def)
  with assms(3,4) show ?thesis
    by (simp add: set_OrderedSet_union distinct_OrderedSet_union)
next
  case False
  with assms(3,4) show ?thesis by (simp add: instantiatorIf_def unionIfDefined_def)
qed

lemma shape_simps:
  "shape (DecodingTransformer n i db b s a ob) =
     DecodingTransformer (shapeSlot n) (shapeSlot i) (shapeSlot db) (shapeSlot b) (shapeSlot s) (shapeSlot a) (shapeSlot ob)"
  "shape (UnionInstantiationTransformer r) = UnionInstantiationTransformer (TypeRef 0 0)"
  "shapeSlot Undefined = Undefined" "shapeSlot Null = Null" "shapeSlot (Obj k) = Obj k"
  "shapeSlot (Ref r) = Ref r" "shapeSlot (Xf t) = Xf (shape t)"
  by (simp_all add: shape_def shapeSlot_def)

lemma bindB_Inr_iff:
  "bindB m f s = (Inr y, s') \<longleftrightarrow> (\<exists>x s1. m s = (Inr x, s1) \<and> f x s1 = (Inr y, s'))"
  by (cases "m s") (auto simp: bindB_def split: sum.splits)

lemma returnB_Inr_iff: "returnB x s = (Inr y, s') \<longleftrightarrow> y = x \<and> s' = s"
  by (auto simp: returnB_def)

lemma throwB_Inr_iff: "throwB e s = (Inr y, s') \<longleftrightarrow> False"
  by (auto simp: throwB_def)

lemma mapB_Nil_iff: "mapB f [] s = (Inr ys, s') \<longleftrightarrow> ys = [] \<and> s' = s"
  by (auto simp: returnB_def)

lemma mapB_Cons_iff:
  "mapB f (x # xs) s = (Inr zs, s') \<longleftrightarrow>
     (\<exists>y ys s1. f x s = (Inr y, s1) \<and> mapB f xs s1 = (Inr ys, s') \<and> zs = y # ys)"
  by (auto simp: bindB_Inr_iff returnB_Inr_iff)

lemma mapB_append_iff:
  "mapB f (xs @ ys) s = (Inr zs, s') \<longleftrightarrow>
     (\<exists>a b s1. mapB f xs s = (Inr a, s1) \<and> mapB f ys s1 = (Inr b, s') \<and> zs = a @ b)"
proof (induction xs arbitrary: s zs)
  case Nil
  show ?case by (auto simp: returnB_Inr_iff)
next
  case (Cons x xs)
  have "mapB f ((x # xs) @ ys) s = (Inr zs, s') \<longleftrightarrow>
      (\<exists>y s0 a b s1. f x s = (Inr y, s0) \<and> mapB f xs s0 = (Inr a, s1) \<and>
         mapB f ys s1 = (Inr b, s') \<and> zs = y # a @ b)"
    unfolding append_Cons mapB_Cons_iff Cons.IH by blast
  also have "\<dots> \<longleftrightarrow> (\<exists>a b s1. mapB f (x # xs) s = (Inr a, s1) \<and> mapB f ys s1 = (Inr b, s') \<and> zs = a @ b)"
    unfolding mapB_Cons_iff by (auto; blast)
  finally show ?case .
qed

lemma mapB_appendI:
  "mapB f xs s = (Inr a, s1) \<Longrightarrow> mapB f ys s1 = (Inr b, s2) \<Longrightarrow>
     mapB f (xs @ ys) s = (Inr (a @ b), s2)"
  unfolding mapB_append_iff by blast

lemma reconstitute_Inr:
  "\<forall>s0 t' s'. reconstitute builder t s0 = (Inr t', s') \<longrightarrow>
      wellTyped t \<and> shape t' = shape t \<and>
      mapB (reconstituteTypeRef builder) (refList t) s0 = (Inr (refList t'), s')"
  "\<forall>s0 v' s'. reconstitute_local builder v s0 = (Inr v', s') \<longrightarrow>
      wellTypedSlot v \<and> shapeSlot v' = shapeSlot v \<and>
      mapB (reconstituteTypeRef builder) (refListSlot v) s0 = (Inr (refListSlot v'), s')"
proof (induction t and v)
  case (DecodingTransformer n i db b s a ob)
  show ?case
  proof (intro allI impI)
    fix s0 t' s'
    assume r: "reconstitute builder (DecodingTransformer n i db b s a ob) s0 = (Inr t', s')"
    then obtain n' s1 i' s2 db' s3 b' s4 sl' s5 a' s6 ob' where
      1: "reconstitute_local builder n s0 = (Inr n', s1)" and
      2: "reconstitute_local builder i s1 = (Inr i', s2)" and
      3: "reconstitute_local builder db s2 = (Inr db', s3)" and
      4: "reconstitute_local builder b s3 = (Inr b', s4)" and
      5: "reconstitute_local builder s s4 = (Inr sl', s5)" and
      6: "reconstitute_local builder a s5 = (Inr a', s6)" and
      7: "reconstitute_local builder ob s6 = (Inr ob', s')" and
      t': "t' = DecodingTransformer n' i' db' b' sl' a' ob'"
      unfolding reconstitute.simps bindB_Inr_iff returnB_Inr_iff by blast
    note h1 = DecodingTransformer(1)[rule_format, OF 1]
    note h2 = DecodingTransformer(2)[rule_format, OF 2]
    note h3 = DecodingTransformer(3)[rule_format, OF 3]
    note h4 = DecodingTransformer(4)[rule_format, OF 4]
    note h5 = DecodingTransformer(5)[rule_format, OF 5]
    note h6 = DecodingTransformer(6)[rule_format, OF 6]
    note h7 = DecodingTransformer(7)[rule_format, OF 7]
    have m: "mapB (reconstituteTypeRef builder)
        (refListSlot n @ refListSlot i @ refListSlot db @ refListSlot b @ refListSlot s @
         refListSlot a @ refListSlot ob) s0 =
        (Inr (refListSlot n' @ refListSlot i' @ refListSlot db' @ refListSlot b' @
              refListSlot sl' @ refListSlot a' @ refListSlot ob'), s')"
      using h1 h2 h3 h4 h5 h6 h7 by (intro mapB_appendI) blast+
    show "wellTyped (DecodingTransformer n i db b s a ob) \<and>
          shape t' = shape (DecodingTransformer n i db b s a ob) \<and>
          mapB (reconstituteTypeRef builder) (refList (DecodingTransformer n i db b s a ob)) s0 =
            (Inr (refList t'), s')"
      using h1 h2 h3 h4 h5 h6 h7 m by (simp add: t' shape_simps)
  qed
next
  case (UnionInstantiationTransformer r)
  show ?case
    by (auto simp: bindB_Inr_iff returnB_Inr_iff shape_simps)
next
  case (Xf t)
  then show ?case
    by (auto simp: bindB_Inr_iff returnB_Inr_iff shape_simps)
qed (auto simp: returnB_Inr_iff throwB_Inr_iff shape_simps)

lemma reconstitute_returns:
  "wellTyped t \<longrightarrow> (\<forall>s0 rs s'. mapB (reconstituteTypeRef builder) (refList t) s0 = (Inr rs, s') \<longrightarrow>
      (\<exists>t'. reconstitute builder t s0 = (Inr t', s') \<and> shape t' = shape t \<and> refList t' = rs))"
  "wellTypedSlot v \<longrightarrow> (\<forall>s0 rs s'. mapB (reconstituteTypeRef builder) (refListSlot v) s0 = (Inr rs, s') \<longrightarrow>
      (\<exists>v'. reconstitute_local builder v s0 = (Inr v', s') \<and> shapeSlot v' = shapeSlot v \<and>
            refListSlot v' = rs))"
proof (induction t and v)
  case (DecodingTransformer n i db b s a ob)
  show ?case
  proof (intro allI impI)
    fix s0 rs s'
    assume wt: "wellTyped (DecodingTransformer n i db b s a ob)"
      and m: "mapB (reconstituteTypeRef builder) (refList (DecodingTransformer n i db b s a ob)) s0 =
                (Inr rs, s')"
    have m0: "mapB (reconstituteTypeRef builder)
        (refListSlot n @ refListSlot i @ refListSlot db @ refListSlot b @ refListSlot s @
         refListSlot a @ refListSlot ob) s0 = (Inr rs, s')"
      using m by simp
    from m0[unfolded mapB_append_iff] obtain r1 r2 r3 r4 r5 r6 r7 s1 s2 s3 s4 s5 s6 where
      1: "mapB (reconstituteTypeRef builder) (refListSlot n) s0 = (Inr r1, s1)" and
      2: "mapB (reconstituteTypeRef builder) (refListSlot i) s1 = (Inr r2, s2)" and
      3: "mapB (reconstituteTypeRef builder) (refListSlot db) s2 = (Inr r3, s3)" and
      4: "mapB (reconstituteTypeRef builder) (refListSlot b) s3 = (Inr r4, s4)" and
      5: "mapB (reconstituteTypeRef builder) (refListSlot s) s4 = (Inr r5, s5)" and
      6: "mapB (reconstituteTypeRef builder) (refListSlot a) s5 = (Inr r6, s6)" and
      7: "mapB (reconstituteTypeRef builder) (refListSlot ob) s6 = (Inr r7, s')" and
      e: "rs = r1 @ r2 @ r3 @ r4 @ r5 @ r6 @ r7"
      by blast
    from wt have w: "wellTypedSlot n" "wellTypedSlot i" "wellTypedSlot db" "wellTypedSlot b"
      "wellTypedSlot s" "wellTypedSlot a" "wellTypedSlot ob" by simp_all
    from DecodingTransformer(1)[rule_format, OF w(1) 1] obtain n' where
      n': "reconstitute_local builder n s0 = (Inr n', s1)"
      "shapeSlot n' = shapeSlot n" "refListSlot n' = r1" by blast
    from DecodingTransformer(2)[rule_format, OF w(2) 2] obtain i' where
      i': "reconstitute_local builder i s1 = (Inr i', s2)"
      "shapeSlot i' = shapeSlot i" "refListSlot i' = r2" by blast
    from DecodingTransformer(3)[rule_format, OF w(3) 3] obtain db' where
      db': "reconstitute_local builder db s2 = (Inr db', s3)"
      "shapeSlot db' = shapeSlot db" "refListSlot db' = r3" by blast
    from DecodingTransformer(4)[rule_format, OF w(4) 4] obtain b' where
      b': "reconstitute_local builder b s3 = (Inr b', s4)"
      "shapeSlot b' = shapeSlot b" "refListSlot b' = r4" by blast
    from DecodingTransformer(5)[rule_format, OF w(5) 5] obtain sl' where
      sl': "reconstitute_local builder s s4 = (Inr sl', s5)"
      "shapeSlot sl' = shapeSlot s" "refListSlot sl' = r5" by blast
    from DecodingTransformer(6)[rule_format, OF w(6) 6] obtain a' where
      a': "reconstitute_local builder a s5 = (Inr a', s6)"
      "shapeSlot a' = shapeSlot a" "refListSlot a' = r6" by blast
    from DecodingTransformer(7)[rule_format, OF w(7) 7] obtain ob' where
      ob': "reconstitute_local builder ob s6 = (Inr ob', s')"
      "shapeSlot ob' = shapeSlot ob" "refListSlot ob' = r7" by blast
    have "reconstitute builder (DecodingTransformer n i db b s a ob) s0 =
            (Inr (DecodingTransformer n' i' db' b' sl' a' ob'), s')"
      using n'(1) i'(1) db'(1) b'(1) sl'(1) a'(1) ob'(1)
      by (simp add: bindB_def returnB_def)
    moreover have "shape (DecodingTransformer n' i' db' b' sl' a' ob') =
        shape (DecodingTransformer n i db b s a ob)"
      using n'(2) i'(2) db'(2) b'(2) sl'(2) a'(2) ob'(2) by (simp add: shape_simps)
    moreover have "refList (DecodingTransformer n' i' db' b' sl' a' ob') = rs"
      using n'(3) i'(3) db'(3) b'(3) sl'(3) a'(3) ob'(3) e by simp
    ultimately show "\<exists>t'. reconstitute builder (DecodingTransformer n i db b s a ob) s0 = (Inr t', s') \<and>
        shape t' = shape (DecodingTransformer n i db b s a ob) \<and> refList t' = rs"
      by blast
  qed
next
  case (UnionInstantiationTransformer r)
  show ?case
    by (auto simp: bindB_Inr_iff returnB_Inr_iff shape_simps)
next
  case (Xf t)
  show ?case
  proof (intro allI impI)
    fix s0 rs s'
    assume wt: "wellTypedSlot (Xf t)"
      and m: "mapB (reconstituteTypeRef builder) (refListSlot (Xf t)) s0 = (Inr rs, s')"
    from wt have w: "wellTyped t" by simp
    from m have m': "mapB (reconstituteTypeRef builder) (refList t) s0 = (Inr rs, s')" by simp
    from Xf[rule_format, OF w m'] obtain t' where
      t': "reconstitute builder t s0 = (Inr t', s')" "shape t' = shape t" "refList t' = rs"
      by blast
    have "reconstitute_local builder (Xf t) s0 = (Inr (Xf t'), s')"
      using t'(1) by (simp add: bindB_def returnB_def)
    with t'(2,3) show "\<exists>v'. reconstitute_local builder (Xf t) s0 = (Inr v', s') \<and>
        shapeSlot v' = shapeSlot (Xf t) \<and> refListSlot v' = rs"
      by (intro exI[of _ "Xf t'"]) (simp add: shape_simps)
  qed
qed (auto simp: returnB_Inr_iff throwB_Inr_iff shape_simps)

lemma shapeSlot_cases:
  "shapeSlot v = shapeSlot w \<Longrightarrow>
     (v = Undefined \<and> w = Undefined) \<or> (v = Null \<and> w = Null) \<or> (\<exists>k. v = Obj k \<and> w = Obj k) \<or>
     (\<exists>r. v = Ref r \<and> w = Ref r) \<or> (\<exists>t u. v = Xf t \<and> w = Xf u \<and> shape t = shape u)"
  by (cases v; cases w) (simp_all add: shape_simps)

lemma shape_cases:
  "shape t = shape u \<Longrightarrow>
     (\<exists>r r'. t = UnionInstantiationTransformer r \<and> u = UnionInstantiationTransformer r') \<or>
     (\<exists>n i db b s a ob n' i' db' b' s' a' ob'.
        t = DecodingTransformer n i db b s a ob \<and> u = DecodingTransformer n' i' db' b' s' a' ob' \<and>
        shapeSlot n = shapeSlot n' \<and> shapeSlot i = shapeSlot i' \<and> shapeSlot db = shapeSlot db' \<and>
        shapeSlot b = shapeSlot b' \<and> shapeSlot s = shapeSlot s' \<and> shapeSlot a = shapeSlot a' \<and>
        shapeSlot ob = shapeSlot ob')"
  by (cases t; cases u) (simp_all add: shape_simps)

lemma shape_length:
  "\<forall>u. shape t = shape u \<longrightarrow> length (refList t) = length (refList u)"
  "\<forall>w. shapeSlot v = shapeSlot w \<longrightarrow> length (refListSlot v) = length (refListSlot w)"
proof (induction t and v)
  case (DecodingTransformer n i db b s a ob)
  show ?case
  proof (intro allI impI)
    fix u assume h: "shape (DecodingTransformer n i db b s a ob) = shape u"
    from shape_cases[OF h] obtain n' i' db' b' s' a' ob' where
      u: "u = DecodingTransformer n' i' db' b' s' a' ob'" and
      e: "shapeSlot n = shapeSlot n'" "shapeSlot i = shapeSlot i'" "shapeSlot db = shapeSlot db'"
        "shapeSlot b = shapeSlot b'" "shapeSlot s = shapeSlot s'" "shapeSlot a = shapeSlot a'"
        "shapeSlot ob = shapeSlot ob'"
      by auto
    note l = DecodingTransformer(1)[rule_format, OF e(1)] DecodingTransformer(2)[rule_format, OF e(2)]
      DecodingTransformer(3)[rule_format, OF e(3)] DecodingTransformer(4)[rule_format, OF e(4)]
      DecodingTransformer(5)[rule_format, OF e(5)] DecodingTransformer(6)[rule_format, OF e(6)]
      DecodingTransformer(7)[rule_format, OF e(7)]
    show "length (refList (DecodingTransformer n i db b s a ob)) = length (refList u)"
      unfolding u refList.simps length_append using l by presburger
  qed
next
  case (UnionInstantiationTransformer r)
  show ?case
  proof (intro allI impI)
    fix u assume h: "shape (UnionInstantiationTransformer r) = shape u"
    from shape_cases[OF h] show "length (refList (UnionInstantiationTransformer r)) = length (refList u)"
      by auto
  qed
next
  case (Xf t)
  show ?case
  proof (intro allI impI)
    fix w assume h: "shapeSlot (Xf t) = shapeSlot w"
    from shapeSlot_cases[OF h] obtain u where w: "w = Xf u" and e: "shape t = shape u" by auto
    from Xf[rule_format, OF e] show "length (refListSlot (Xf t)) = length (refListSlot w)"
      by (simp add: w)
  qed
next
  case Undefined
  show ?case
  proof (intro allI impI)
    fix w assume h: "shapeSlot Undefined = shapeSlot w"
    from shapeSlot_cases[OF h] have "w = Undefined" by auto
    then show "length (refListSlot Undefined) = length (refListSlot w)" by simp
  qed
next
  case Null
  show ?case
  proof (intro allI impI)
    fix w assume h: "shapeSlot Null = shapeSlot w"
    from shapeSlot_cases[OF h] have "w = Null" by auto
    then show "length (refListSlot Null) = length (refListSlot w)" by simp
  qed
next
  case (Obj k)
  show ?case
  proof (intro allI impI)
    fix w assume h: "shapeSlot (Obj k) = shapeSlot w"
    from shapeSlot_cases[OF h] have "w = Obj k" by auto
    then show "length (refListSlot (Obj k)) = length (refListSlot w)" by simp
  qed
next
  case (Ref r)
  show ?case
  proof (intro allI impI)
    fix w assume h: "shapeSlot (Ref r) = shapeSlot w"
    from shapeSlot_cases[OF h] have "w = Ref r" by auto
    then show "length (refListSlot (Ref r)) = length (refListSlot w)" by simp
  qed
qed

lemma shape_refList_inject:
  "\<forall>u. shape t = shape u \<longrightarrow> refList t = refList u \<longrightarrow> t = u"
  "\<forall>w. shapeSlot v = shapeSlot w \<longrightarrow> refListSlot v = refListSlot w \<longrightarrow> v = w"
proof (induction t and v)
  case (DecodingTransformer n i db b s a ob)
  show ?case
  proof (intro allI impI)
    fix u assume h: "shape (DecodingTransformer n i db b s a ob) = shape u"
      and r: "refList (DecodingTransformer n i db b s a ob) = refList u"
    from shape_cases[OF h] obtain n' i' db' b' s' a' ob' where
      u: "u = DecodingTransformer n' i' db' b' s' a' ob'" and
      e: "shapeSlot n = shapeSlot n'" "shapeSlot i = shapeSlot i'" "shapeSlot db = shapeSlot db'"
        "shapeSlot b = shapeSlot b'" "shapeSlot s = shapeSlot s'" "shapeSlot a = shapeSlot a'"
        "shapeSlot ob = shapeSlot ob'"
      by auto
    note l = shape_length(2)[rule_format, OF e(1)] shape_length(2)[rule_format, OF e(2)]
      shape_length(2)[rule_format, OF e(3)] shape_length(2)[rule_format, OF e(4)]
      shape_length(2)[rule_format, OF e(5)] shape_length(2)[rule_format, OF e(6)]
      shape_length(2)[rule_format, OF e(7)]
    from r have r': "refListSlot n @ refListSlot i @ refListSlot db @ refListSlot b @ refListSlot s @
         refListSlot a @ refListSlot ob =
       refListSlot n' @ refListSlot i' @ refListSlot db' @ refListSlot b' @ refListSlot s' @
         refListSlot a' @ refListSlot ob'"
      by (simp add: u)
    from r' l have q: "refListSlot n = refListSlot n'" "refListSlot i = refListSlot i'"
      "refListSlot db = refListSlot db'" "refListSlot b = refListSlot b'"
      "refListSlot s = refListSlot s'" "refListSlot a = refListSlot a'"
      "refListSlot ob = refListSlot ob'"
      by simp_all
    show "DecodingTransformer n i db b s a ob = u"
      unfolding u
      using DecodingTransformer(1)[rule_format, OF e(1) q(1)]
        DecodingTransformer(2)[rule_format, OF e(2) q(2)]
        DecodingTransformer(3)[rule_format, OF e(3) q(3)]
        DecodingTransformer(4)[rule_format, OF e(4) q(4)]
        DecodingTransformer(5)[rule_format, OF e(5) q(5)]
        DecodingTransformer(6)[rule_format, OF e(6) q(6)]
        DecodingTransformer(7)[rule_format, OF e(7) q(7)]
      by simp
  qed
next
  case (UnionInstantiationTransformer r)
  show ?case
  proof (intro allI impI)
    fix u assume h: "shape (UnionInstantiationTransformer r) = shape u"
      and q: "refList (UnionInstantiationTransformer r) = refList u"
    from shape_cases[OF h] q show "UnionInstantiationTransformer r = u" by auto
  qed
next
  case (Xf t)
  show ?case
  proof (intro allI impI)
    fix w assume h: "shapeSlot (Xf t) = shapeSlot w" and q: "refListSlot (Xf t) = refListSlot w"
    from shapeSlot_cases[OF h] obtain u where w: "w = Xf u" and e: "shape t = shape u" by auto
    from q w have "refList t = refList u" by simp
    from Xf[rule_format, OF e this] show "Xf t = w" by (simp add: w)
  qed
next
  case Undefined
  show ?case
  proof (intro allI impI)
    fix w assume h: "shapeSlot Undefined = shapeSlot w"
    from shapeSlot_cases[OF h] show "Undefined = w" by auto
  qed
next
  case Null
  show ?case
  proof (intro allI impI)
    fix w assume h: "shapeSlot Null = shapeSlot w"
    from shapeSlot_cases[OF h] show "Null = w" by auto
  qed
next
  case (Obj k)
  show ?case
  proof (intro allI impI)
    fix w assume h: "shapeSlot (Obj k) = shapeSlot w"
    from shapeSlot_cases[OF h] show "Obj k = w" by auto
  qed
next
  case (Ref r)
  show ?case
  proof (intro allI impI)
    fix w assume h: "shapeSlot (Ref r) = shapeSlot w"
    from shapeSlot_cases[OF h] show "Ref r = w" by auto
  qed
qed

lemma imageUnder_shape_refList:
  "shape (imageUnder f t) = shape t \<and> refList (imageUnder f t) = map f (refList t)"
  "shapeSlot (imageUnderSlot f v) = shapeSlot v \<and> refListSlot (imageUnderSlot f v) = map f (refListSlot v)"
  by (induction t and v) (simp_all add: shape_simps)

lemma shapeSlot_undefined:
  "shapeSlot v = shapeSlot w \<Longrightarrow> (v = Undefined) = (w = Undefined)"
  by (cases v; cases w) (simp_all add: shape_simps)

lemma shape_variant:
  assumes "shape t' = shape t"
  shows "sameVariant t' (Xf t) \<and>
         map (\<lambda>v. v = Undefined) (slots t') = map (\<lambda>v. v = Undefined) (slots t)"
proof -
  from shape_cases[OF assms] consider
    r r' where "t' = UnionInstantiationTransformer r" "t = UnionInstantiationTransformer r'"
  | n i db b s a ob n' i' db' b' s' a' ob' where
      "t' = DecodingTransformer n i db b s a ob" "t = DecodingTransformer n' i' db' b' s' a' ob'"
      "shapeSlot n = shapeSlot n'" "shapeSlot i = shapeSlot i'" "shapeSlot db = shapeSlot db'"
      "shapeSlot b = shapeSlot b'" "shapeSlot s = shapeSlot s'" "shapeSlot a = shapeSlot a'"
      "shapeSlot ob = shapeSlot ob'"
    by blast
  then show ?thesis
  proof cases
    case 1
    then show ?thesis by simp
  next
    case 2
    note u = shapeSlot_undefined[OF 2(3)] shapeSlot_undefined[OF 2(4)] shapeSlot_undefined[OF 2(5)]
      shapeSlot_undefined[OF 2(6)] shapeSlot_undefined[OF 2(7)] shapeSlot_undefined[OF 2(8)]
      shapeSlot_undefined[OF 2(9)]
    show ?thesis unfolding 2(1,2) using u by simp
  qed
qed

lemma reconstitute_iff:
  "reconstitute builder t s = (Inr t', s') \<longleftrightarrow>
      wellTyped t \<and> shape t' = shape t \<and>
      mapB (reconstituteTypeRef builder) (refList t) s = (Inr (refList t'), s')"
proof
  assume "reconstitute builder t s = (Inr t', s')"
  then show "wellTyped t \<and> shape t' = shape t \<and>
      mapB (reconstituteTypeRef builder) (refList t) s = (Inr (refList t'), s')"
    using reconstitute_Inr(1)[of builder t] by blast
next
  assume h: "wellTyped t \<and> shape t' = shape t \<and>
      mapB (reconstituteTypeRef builder) (refList t) s = (Inr (refList t'), s')"
  then obtain u where u: "reconstitute builder t s = (Inr u, s')" "shape u = shape t"
    "refList u = refList t'"
    using reconstitute_returns(1)[of t builder] by blast
  from h u(2) have "shape u = shape t'" by simp
  with u(3) have "u = t'" using shape_refList_inject(1)[of u] by blast
  with u(1) show "reconstitute builder t s = (Inr t', s')" by simp
qed

lemma Transformation_reconstitute_iff:
  "Transformation_reconstitute builder (Transformation target t) s = (Inr (Transformation target' t'), s') \<longleftrightarrow>
      wellTyped t \<and> shape t' = shape t \<and>
      mapB (reconstituteTypeRef builder) (target # refList t) s = (Inr (target' # refList t'), s')"
  unfolding Transformation_reconstitute_def bindB_Inr_iff returnB_Inr_iff mapB_Cons_iff
    reconstitute_iff
  by auto

lemma mapB_cache:
  "P s \<Longrightarrow> mapB f rs s = (Inr rs', s') \<Longrightarrow>
   (\<forall>r \<in> set rs. \<forall>s1 r' s2. P s1 \<and> f r s1 = (Inr r', s2) \<longrightarrow>
      P s2 \<and> cache s2 r = Some r' \<and> cache s1 \<subseteq>\<^sub>m cache s2) \<Longrightarrow>
   P s' \<and> cache s \<subseteq>\<^sub>m cache s' \<and> rs' = map (\<lambda>r. the (cache s' r)) rs"
proof (induction rs arbitrary: s rs')
  case Nil
  then show ?case by (simp add: returnB_Inr_iff)
next
  case (Cons x xs)
  from Cons.prems(2) obtain y ys s1 where
    1: "f x s = (Inr y, s1)" and 2: "mapB f xs s1 = (Inr ys, s')" and 3: "rs' = y # ys"
    unfolding mapB_Cons_iff by blast
  have "x \<in> set (x # xs)" by simp
  from Cons.prems(3)[rule_format, OF this, of s y s1] Cons.prems(1) 1
  have a: "P s1" "cache s1 x = Some y" "cache s \<subseteq>\<^sub>m cache s1" by blast+
  have H': "\<forall>r \<in> set xs. \<forall>s1 r' s2. P s1 \<and> f r s1 = (Inr r', s2) \<longrightarrow>
      P s2 \<and> cache s2 r = Some r' \<and> cache s1 \<subseteq>\<^sub>m cache s2"
  proof (intro ballI allI impI)
    fix r t1 r' t2
    assume "r \<in> set xs" and h: "P t1 \<and> f r t1 = (Inr r', t2)"
    then have "r \<in> set (x # xs)" by simp
    from Cons.prems(3)[rule_format, OF this h]
    show "P t2 \<and> cache t2 r = Some r' \<and> cache t1 \<subseteq>\<^sub>m cache t2" .
  qed
  from Cons.IH[OF a(1) 2 H']
  have b: "P s'" "cache s1 \<subseteq>\<^sub>m cache s'" "ys = map (\<lambda>r. the (cache s' r)) xs" by simp_all
  from a(2) have "x \<in> dom (cache s1)" by (rule domI)
  with b(2) have "cache s1 x = cache s' x" unfolding map_le_def by (rule bspec)
  with a(2) have "cache s' x = Some y" by simp
  moreover from a(3) b(2) have "cache s \<subseteq>\<^sub>m cache s'" by (rule map_le_trans)
  ultimately show ?case using b(1,3) 3 by simp
qed

lemma reconstitute_cache:
  assumes H: "\<And>r s1 r' s2. r \<in> set (refList t) \<Longrightarrow> P s1 \<Longrightarrow>
      reconstituteTypeRef builder r s1 = (Inr r', s2) \<Longrightarrow>
      P s2 \<and> cache s2 r = Some r' \<and> cache s1 \<subseteq>\<^sub>m cache s2"
    and p: "P s" and r: "reconstitute builder t s = (Inr t', s')"
  shows "t' = imageUnder (\<lambda>r. the (cache s' r)) t \<and> cache s \<subseteq>\<^sub>m cache s' \<and> P s'"
proof -
  from r have sh: "shape t' = shape t"
    and m: "mapB (reconstituteTypeRef builder) (refList t) s = (Inr (refList t'), s')"
    using reconstitute_iff[of builder t s t' s'] by blast+
  have H': "\<forall>r \<in> set (refList t). \<forall>s1 r' s2. P s1 \<and> reconstituteTypeRef builder r s1 = (Inr r', s2) \<longrightarrow>
      P s2 \<and> cache s2 r = Some r' \<and> cache s1 \<subseteq>\<^sub>m cache s2"
    using H by blast
  have c: "P s' \<and> cache s \<subseteq>\<^sub>m cache s' \<and> refList t' = map (\<lambda>r. the (cache s' r)) (refList t)"
    using p m H' by (rule mapB_cache)
  let ?i = "imageUnder (\<lambda>r. the (cache s' r)) t"
  have i: "shape ?i = shape t" "refList ?i = map (\<lambda>r. the (cache s' r)) (refList t)"
    using imageUnder_shape_refList(1)[of "\<lambda>r. the (cache s' r)" t] by blast+
  have e1: "shape t' = shape ?i" using sh i(1) by (rule trans[OF _ sym])
  have e2: "refList t' = refList ?i" using c i(2) by (simp only:)
  have "t' = ?i" using shape_refList_inject(1)[of t', rule_format, OF e1 e2] .
  with c show ?thesis by blast
qed

lemma Transformation_reconstitute_cache:
  assumes H: "\<forall>r \<in> insert target (set (refList t)). \<forall>s1 r' s2.
      P s1 \<and> reconstituteTypeRef builder r s1 = (Inr r', s2) \<longrightarrow>
      P s2 \<and> cache s2 r = Some r' \<and> cache s1 \<subseteq>\<^sub>m cache s2"
    and p: "P s"
    and r: "Transformation_reconstitute builder (Transformation target t) s = (Inr x', s')"
  shows "x' = Transformation (the (cache s' target)) (imageUnder (\<lambda>r. the (cache s' r)) t) \<and>
         cache s \<subseteq>\<^sub>m cache s' \<and> P s'"
proof -
  from r obtain target' s1 t' where
    1: "reconstituteTypeRef builder target s = (Inr target', s1)" and
    2: "reconstitute builder t s1 = (Inr t', s')" and
    3: "x' = Transformation target' t'"
    unfolding Transformation_reconstitute_def bindB_Inr_iff returnB_Inr_iff by auto
  have "target \<in> insert target (set (refList t))" by simp
  from H[rule_format, OF this, of s target' s1] p 1
  have a: "P s1" "cache s1 target = Some target'" "cache s \<subseteq>\<^sub>m cache s1" by blast+
  have b: "t' = imageUnder (\<lambda>r. the (cache s' r)) t \<and> cache s1 \<subseteq>\<^sub>m cache s' \<and> P s'"
  proof (rule reconstitute_cache[where P = P and builder = builder and s = s1])
    fix r t1 r' t2
    assume "r \<in> set (refList t)" and h: "P t1" "reconstituteTypeRef builder r t1 = (Inr r', t2)"
    then have "r \<in> insert target (set (refList t))" by simp
    from H[rule_format, OF this, of t1 r' t2] h
    show "P t2 \<and> cache t2 r = Some r' \<and> cache t1 \<subseteq>\<^sub>m cache t2" by blast
  qed (rule a(1), rule 2)
  from a(2) have "target \<in> dom (cache s1)" by (rule domI)
  with b have "cache s1 target = cache s' target" unfolding map_le_def by blast
  with a(2) have c: "the (cache s' target) = target'" by simp
  from a(3) b have "cache s \<subseteq>\<^sub>m cache s'" by (blast intro: map_le_trans)
  with b c 3 show ?thesis by simp
qed

lemma derefAll_state: "derefAll rs s = (Inr ms, s') \<Longrightarrow> s' = s"
  unfolding derefAll_def
proof (induction rs arbitrary: s ms)
  case Nil
  then show ?case by (simp add: returnB_Inr_iff)
next
  case (Cons r rs)
  from Cons.prems obtain y ys s1 where
    1: "(case derefIn (nodes s) r of Inl e \<Rightarrow> (Inl e, s) | Inr p \<Rightarrow> (Inr (fst p), s)) = (Inr y, s1)"
    and 2: "mapB (\<lambda>r s. case derefIn (nodes s) r of Inl e \<Rightarrow> (Inl e, s) | Inr p \<Rightarrow> (Inr (fst p), s)) rs s1 = (Inr ys, s')"
    unfolding mapB_Cons_iff by blast
  from 1 have "s1 = s" by (auto split: sum.splits)
  with Cons.IH[OF 2] show ?case by simp
qed

lemma addType_state:
  "addType k a ms s = (Inr r, s') \<Longrightarrow> reconstituted s' = reconstituted s \<and> oldNodes s' = oldNodes s"
  by (auto simp: addType_def Let_def)

lemma spec_reconstituteType_cache:
  "\<forall>s r' s'. spec_reconstituteType t s = (Inr r', s') \<longrightarrow>
      oldNodes s' = oldNodes s \<and>
      ((map_of (reconstituted s) (typeRef t) = Some r' \<and> s' = s) \<or>
       (\<exists>ext. reconstituted s' = reconstituted s @ ext @ [(typeRef t, r')] \<and>
              fst ` set ext \<subseteq> memberIds t \<and> map_of (reconstituted s) (typeRef t) = None))"
  "\<forall>s rs s'. spec_reconstituteTypes ms s = (Inr rs, s') \<longrightarrow>
      oldNodes s' = oldNodes s \<and>
      (\<exists>ext. reconstituted s' = reconstituted s @ ext \<and>
             fst ` set ext \<subseteq> (\<Union>m \<in> set ms. insert (typeRef m) (memberIds m)))"
proof (induction t and ms rule: spec_reconstituteType_spec_reconstituteTypes.induct)
  case (1 r k attrs ms)
  show ?case
  proof (intro allI impI)
    fix s r' s'
    assume h: "spec_reconstituteType (Type r k attrs ms) s = (Inr r', s')"
    show "oldNodes s' = oldNodes s \<and>
      ((map_of (reconstituted s) (typeRef (Type r k attrs ms)) = Some r' \<and> s' = s) \<or>
       (\<exists>ext. reconstituted s' = reconstituted s @ ext @ [(typeRef (Type r k attrs ms), r')] \<and>
              fst ` set ext \<subseteq> memberIds (Type r k attrs ms) \<and>
              map_of (reconstituted s) (typeRef (Type r k attrs ms)) = None))"
    proof (cases "map_of (reconstituted s) r")
      case (Some c)
      with h show ?thesis by simp
    next
      case None
      with h obtain rs s1 ms' s2 q s3 where
        a: "spec_reconstituteTypes ms s = (Inr rs, s1)" and
        b: "derefAll rs s1 = (Inr ms', s2)" and
        c: "addType k attrs ms' s2 = (Inr q, s3)" and
        d: "r' = q" "s' = s3\<lparr>reconstituted := reconstituted s3 @ [(r, q)]\<rparr>"
        by (auto simp: bindB_Inr_iff)
      from 1[rule_format, OF None a] obtain ext where
        e: "oldNodes s1 = oldNodes s" "reconstituted s1 = reconstituted s @ ext"
          "fst ` set ext \<subseteq> (\<Union>m \<in> set ms. insert (typeRef m) (memberIds m))"
        by blast
      from derefAll_state[OF b] have s2: "s2 = s1" .
      from addType_state[OF c] have s3: "reconstituted s3 = reconstituted s2" "oldNodes s3 = oldNodes s2"
        by simp_all
      have o3: "oldNodes s3 = oldNodes s" using e(1) s2 s3(2) by simp
      have r3: "reconstituted s3 = reconstituted s @ ext" using e(2) s2 s3(1) by simp
      have o: "oldNodes s' = oldNodes s" unfolding d(2) using o3 by simp
      have c': "reconstituted s' = reconstituted s @ ext @ [(typeRef (Type r k attrs ms), r')]"
        unfolding d using r3 by simp
      have m: "fst ` set ext \<subseteq> memberIds (Type r k attrs ms)" using e(3) by simp
      have n: "map_of (reconstituted s) (typeRef (Type r k attrs ms)) = None" using None by simp
      from o c' m n show ?thesis by blast
    qed
  qed
next
  case 2
  show ?case by (simp add: returnB_Inr_iff)
next
  case (3 m ms)
  show ?case
  proof (intro allI impI)
    fix s rs s'
    assume h: "spec_reconstituteTypes (m # ms) s = (Inr rs, s')"
    then obtain r s1 rs' where
      a: "spec_reconstituteType m s = (Inr r, s1)" and
      b: "spec_reconstituteTypes ms s1 = (Inr rs', s')"
      by (auto simp: bindB_Inr_iff returnB_Inr_iff)
    from 3(1)[rule_format, OF a] have
      e1: "oldNodes s1 = oldNodes s"
      and e2: "\<exists>ext. reconstituted s1 = reconstituted s @ ext \<and> fst ` set ext \<subseteq> insert (typeRef m) (memberIds m)"
    proof -
      from 3(1)[rule_format, OF a] show "oldNodes s1 = oldNodes s" by blast
      from 3(1)[rule_format, OF a] consider
        "s1 = s" | ext where "reconstituted s1 = reconstituted s @ ext @ [(typeRef m, r)]"
          "fst ` set ext \<subseteq> memberIds m" by blast
      then show "\<exists>ext. reconstituted s1 = reconstituted s @ ext \<and>
          fst ` set ext \<subseteq> insert (typeRef m) (memberIds m)"
      proof cases
        case 1
        then show ?thesis by (intro exI[of _ "[]"]) simp
      next
        case 2
        then show ?thesis by (intro exI[of _ "ext @ [(typeRef m, r)]"]) auto
      qed
    qed
    from e2 obtain ext1 where x1: "reconstituted s1 = reconstituted s @ ext1"
      "fst ` set ext1 \<subseteq> insert (typeRef m) (memberIds m)" by blast
    from 3(2)[rule_format, OF b] obtain ext2 where
      x2: "oldNodes s' = oldNodes s1" "reconstituted s' = reconstituted s1 @ ext2"
        "fst ` set ext2 \<subseteq> (\<Union>m \<in> set ms. insert (typeRef m) (memberIds m))"
      by blast
    have c: "reconstituted s' = reconstituted s @ (ext1 @ ext2)" using x1(1) x2(2) by simp
    have f: "fst ` set (ext1 @ ext2) \<subseteq> (\<Union>m \<in> set (m # ms). insert (typeRef m) (memberIds m))"
      using x1(2) x2(3) by auto
    have o: "oldNodes s' = oldNodes s" using e1 x2(1) by simp
    from c f have "\<exists>ext. reconstituted s' = reconstituted s @ ext \<and>
             fst ` set ext \<subseteq> (\<Union>m \<in> set (m # ms). insert (typeRef m) (memberIds m))"
      by (intro exI[of _ "ext1 @ ext2"] conjI)
    with o show "oldNodes s' = oldNodes s \<and>
      (\<exists>ext. reconstituted s' = reconstituted s @ ext \<and>
             fst ` set ext \<subseteq> (\<Union>m \<in> set (m # ms). insert (typeRef m) (memberIds m)))"
      by (rule conjI)
  qed
qed

lemma map_of_append_le: "map_of xs \<subseteq>\<^sub>m map_of (xs @ ys)"
  by (auto simp: map_le_def map_add_def dom_def split: option.splits)

lemma map_of_append_last:
  "map_of xs r = None \<Longrightarrow> r \<notin> fst ` set ext \<Longrightarrow> map_of (xs @ ext @ [(r, r')]) r = Some r'"
  by (simp add: map_add_def map_of_eq_None_iff[symmetric] split: option.splits)

lemma specBuilder_records:
  assumes p: "oldGraphOk s" and c: "reconstituteTypeRef specBuilder r s = (Inr r', s')"
  shows "oldGraphOk s' \<and> cacheOf s' r = Some r' \<and> cacheOf s \<subseteq>\<^sub>m cacheOf s'"
proof -
  from c obtain t where t: "map_of (oldNodes s) r = Some t"
    and rt: "spec_reconstituteType t s = (Inr r', s')"
    by (auto simp: specBuilder_def spec_reconstituteTypeRef_def split: option.splits)
  from t have "(r, t) \<in> set (oldNodes s)" by (rule map_of_SomeD)
  with p have id: "typeRef t = r" "r \<notin> memberIds t" unfolding oldGraphOk_def by blast+
  from spec_reconstituteType_cache(1)[rule_format, OF rt] have o: "oldNodes s' = oldNodes s"
    and d: "(map_of (reconstituted s) (typeRef t) = Some r' \<and> s' = s) \<or>
       (\<exists>ext. reconstituted s' = reconstituted s @ ext @ [(typeRef t, r')] \<and>
              fst ` set ext \<subseteq> memberIds t \<and> map_of (reconstituted s) (typeRef t) = None)"
    by blast+
  from p o have p': "oldGraphOk s'" unfolding oldGraphOk_def by simp
  from d consider "map_of (reconstituted s) r = Some r'" "s' = s"
    | ext where "reconstituted s' = reconstituted s @ ext @ [(r, r')]" "fst ` set ext \<subseteq> memberIds t"
        "map_of (reconstituted s) r = None"
    unfolding id(1) by blast
  then have "cacheOf s' r = Some r' \<and> cacheOf s \<subseteq>\<^sub>m cacheOf s'"
  proof cases
    case 1
    then show ?thesis by (simp add: cacheOf_def)
  next
    case 2
    from 2(2) id(2) have n: "r \<notin> fst ` set ext" by blast
    have "map_of (reconstituted s') r = Some r'"
      unfolding 2(1) using 2(3) n by (rule map_of_append_last)
    moreover have "map_of (reconstituted s) \<subseteq>\<^sub>m map_of (reconstituted s')"
      unfolding 2(1) by (rule map_of_append_le)
    ultimately show ?thesis by (simp add: cacheOf_def)
  qed
  with p' show ?thesis by simp
qed

lemma unionType_Inr: "unionType d r = Inr u \<Longrightarrow> kind u = KUnion"
  by (auto simp: unionType_def bindE_def Let_def split: sum.splits if_splits)

lemma unionType_panic:
  "d r = Inr (t, at) \<Longrightarrow> kind t \<noteq> KUnion \<Longrightarrow>
     unionType d r = Inl (Panic ''Union instantiator with the wrong type'')"
  by (simp add: unionType_def bindE_def)

lemma DT_ok:
  assumes "slotAnswers d n" "slotAnswers d i" "slotAnswers d db" "slotAnswers d b"
    "slotAnswers d s" "slotAnswers d a" "slotAnswers d ob"
  shows "\<exists>cs. getChildren d (DecodingTransformer n i db b s a ob) = Inr cs"
proof -
  obtain c1 where 1: "unionIfDefined n (call_getChildren d n) [] = Inr c1" using step_ok[OF assms(1)] by blast
  obtain c2 where 2: "unionIfDefined i (call_getChildren d i) c1 = Inr c2" using step_ok[OF assms(2)] by blast
  obtain c3 where 3: "unionIfDefined db (call_getChildren d db) c2 = Inr c3" using step_ok[OF assms(3)] by blast
  obtain c4 where 4: "unionIfDefined b (call_getChildren d b) c3 = Inr c4" using step_ok[OF assms(4)] by blast
  obtain c5 where 5: "unionIfDefined s (call_getChildren d s) c4 = Inr c5" using step_ok[OF assms(5)] by blast
  obtain c6 where 6: "unionIfDefined a (call_getChildren d a) c5 = Inr c6" using step_ok[OF assms(6)] by blast
  obtain c7 where 7: "unionIfDefined ob (call_getChildren d ob) c6 = Inr c7" using step_ok[OF assms(7)] by blast
  show ?thesis using 1 2 3 4 5 6 7 by (simp add: bindE_def)
qed

lemma DT_answers:
  assumes "getChildren d (DecodingTransformer n i db b s a ob) = Inr cs"
  shows "slotAnswers d n \<and> slotAnswers d i \<and> slotAnswers d db \<and> slotAnswers d b \<and>
         slotAnswers d s \<and> slotAnswers d a \<and> slotAnswers d ob"
proof -
  from assms obtain c1 c2 c3 c4 c5 c6 where
    1: "unionIfDefined n (call_getChildren d n) [] = Inr c1" and
    2: "unionIfDefined i (call_getChildren d i) c1 = Inr c2" and
    3: "unionIfDefined db (call_getChildren d db) c2 = Inr c3" and
    4: "unionIfDefined b (call_getChildren d b) c3 = Inr c4" and
    5: "unionIfDefined s (call_getChildren d s) c4 = Inr c5" and
    6: "unionIfDefined a (call_getChildren d a) c5 = Inr c6" and
    7: "unionIfDefined ob (call_getChildren d ob) c6 = Inr cs"
    by (auto simp: bindE_Inr_iff)
  show ?thesis
    using step_set[OF 1] step_set[OF 2] step_set[OF 3] step_set[OF 4] step_set[OF 5]
      step_set[OF 6] step_set[OF 7] by simp
qed

lemma equals_is_eq:
  "\<forall>w. equals TypeRef_equals shared t w = Inr (w = Xf t)"
  "\<forall>w. immutable_is TypeRef_equals shared v w = Inr (w = v)"
proof (induction t and v)
  case (DecodingTransformer n i db b s a ob)
  show ?case
  proof
    fix w
    show "equals TypeRef_equals shared (DecodingTransformer n i db b s a ob) w =
            Inr (w = Xf (DecodingTransformer n i db b s a ob))"
      using DecodingTransformer
      by (auto simp: bindE_def split: jsval.splits transformer.splits)
  qed
next
  case (UnionInstantiationTransformer r)
  show ?case by (auto simp: TypeRef_equals_def split: jsval.splits transformer.splits)
next
  case (Ref r)
  show ?case by (auto simp: TypeRef_equals_def split: jsval.splits)
next
  case (Xf t)
  then show ?case by (auto split: jsval.splits)
qed auto

section \<open>The claims\<close>

text \<open>
  Claim C1 says that the DecodingTransformer built by the replacer has exactly the slots of
  the member kinds populated, and the array and object slots always empty. The code does
  otherwise. \<^verbatim>\<open>replace\<close> calls \<^verbatim>\<open>new DecodingTransformer\<close> with eight arguments (the
  reference of a fresh \<^verbatim>\<open>any\<close> node, the five scalar slots, \<^verbatim>\<open>undefined\<close> twice), the
  constructor declares seven parameters, and so every argument lands one slot early (lemma
  \<open>new_DecodingTransformer_eight\<close>). For the union \<^verbatim>\<open>integer | string\<close> of scenario A the
  null slot holds a TypeRef, the integer and string slots are empty, and the
  instantiators sit in the double and array slots.
\<close>

theorem replace_integer_string_slots:
  "placeholderTransformation unionA =
     Some (Transformation (TypeRef 1 3)
       (DecodingTransformer (Ref (TypeRef 1 4)) Undefined
          (Xf (UnionInstantiationTransformer (TypeRef 1 1))) Undefined Undefined
          (Xf (UnionInstantiationTransformer (TypeRef 1 2))) Undefined))"
  by code_simp

text \<open>
  Claim C2 says that the slot of each scalar member kind holds a
  UnionInstantiationTransformer whose TypeRef dereferences to the target union of the
  Transformation. The code does otherwise. \<^verbatim>\<open>transformerForKind\<close> calls
  \<^verbatim>\<open>new UnionInstantiationTransformer\<close> with the reconstituted member first and the
  reconstituted union second, and the constructor keeps only its first argument (lemma
  \<open>transformerForKind_member\<close>, for every builder). For the
  union \<^verbatim>\<open>integer | string\<close> the target is node 3 of the new graph, the integer slot is
  empty, and the instantiator built for the integer member refers to node 1, the
  reconstituted integer type, on which \<^verbatim>\<open>unionType\<close> and \<^verbatim>\<open>getChildren\<close> panic.
\<close>

theorem replace_integer_string_instantiators:
  "map_option targetTypeRef (placeholderTransformation unionA) = Some (TypeRef 1 3)
   \<and> map_option (integerTransformer \<circ> transformer) (placeholderTransformation unionA) = Some Undefined
   \<and> map_option (doubleTransformer \<circ> transformer) (placeholderTransformation unionA) =
       Some (Xf (UnionInstantiationTransformer (TypeRef 1 1)))
   \<and> newGraph unionA (TypeRef 1 1) = Inr (Type (TypeRef 1 1) KInteger [] [], [])
   \<and> unionType (newGraph unionA) (TypeRef 1 1) =
       Inl (Panic ''Union instantiator with the wrong type'')
   \<and> getChildren (newGraph unionA) (UnionInstantiationTransformer (TypeRef 1 1)) =
       Inl (Panic ''Union instantiator with the wrong type'')"
  by code_simp

text \<open>
  Claim C3, as stated, fails for the union of scenario B. On the Transformation that the
  replacer attaches, \<^verbatim>\<open>getChildren\<close> does not return at all: the null slot holds a
  TypeRef, which has no such method. On the Transformation that the specification
  describes for this union, five instantiators on the target, it returns one Type, the
  target union, and not six.
\<close>

theorem five_members_children_counterexample:
  "placeholderTransformation unionB =
     Some (Transformation (TypeRef 1 6)
       (DecodingTransformer (Ref (TypeRef 1 7))
          (Xf (UnionInstantiationTransformer (TypeRef 1 1)))
          (Xf (UnionInstantiationTransformer (TypeRef 1 2)))
          (Xf (UnionInstantiationTransformer (TypeRef 1 3)))
          (Xf (UnionInstantiationTransformer (TypeRef 1 4)))
          (Xf (UnionInstantiationTransformer (TypeRef 1 5))) Undefined))
   \<and> map_option (Transformation_getChildren (newGraph unionB)) (placeholderTransformation unionB) =
       Some (Inl (TypeError ''getChildren is not a function''))
   \<and> Transformation_getChildren (newGraph unionB)
         (Transformation (TypeRef 1 6)
            (describedTransformer [KNull, KInteger, KDouble, KBool, KString] (TypeRef 1 6))) =
       Inr [reconstitutedB]"
  by code_simp

text \<open>
  Claim C3, amended. For every Transformation whose transformer's \<^verbatim>\<open>getChildren\<close> returns
  and whose target dereferences, \<^verbatim>\<open>getChildren\<close> returns the transformer's children and
  the target type, each once. When the transformer is the one described for a union with
  scalar member kinds \<open>ks\<close>, instantiators on the target union in the slots of \<open>ks\<close>, the
  result is the target union alone: the members are children of the target, not of the
  Transformation.
\<close>

theorem Transformation_children:
  "(getChildren d x = Inr cs \<and> d r = Inr (t, a) \<longrightarrow>
      (\<exists>cs'. Transformation_getChildren d (Transformation r x) = Inr cs' \<and> distinct cs' \<and>
             set cs' = set cs \<union> {t}))
   \<and> (d r = Inr (t, a) \<and> kind t = KUnion \<longrightarrow>
        Transformation_getChildren d (Transformation r (describedTransformer ks r)) = Inr [t])"
proof (intro conjI impI)
  assume h: "getChildren d x = Inr cs \<and> d r = Inr (t, a)"
  then have "distinct cs" using getChildren_distinct by blast
  with h show "\<exists>cs'. Transformation_getChildren d (Transformation r x) = Inr cs' \<and> distinct cs' \<and>
             set cs' = set cs \<union> {t}"
    by (simp add: Transformation_getChildren_def targetType_def bindE_def set_OrderedSet_add distinct_OrderedSet_add)
next
  assume h: "d r = Inr (t, a) \<and> kind t = KUnion"
  then have dr: "d r = Inr (t, a)" and k: "kind t = KUnion" by auto
  have e: "set ([]::type list) \<subseteq> {t}" "distinct ([]::type list)" by simp_all
  obtain c1 where 1: "unionIfDefined (instantiatorIf ks KNull r) (call_getChildren d (instantiatorIf ks KNull r)) [] = Inr c1" "distinct c1" "set c1 \<subseteq> {t}"
    using slot_instantiator[of d r t a "[]" ks KNull] dr k by auto
  obtain c2 where 2: "unionIfDefined (instantiatorIf ks KInteger r) (call_getChildren d (instantiatorIf ks KInteger r)) c1 = Inr c2" "distinct c2" "set c2 \<subseteq> {t}"
    using slot_instantiator[of d r t a c1 ks KInteger] dr k 1(2,3) by auto
  obtain c3 where 3: "unionIfDefined (instantiatorIf ks KDouble r) (call_getChildren d (instantiatorIf ks KDouble r)) c2 = Inr c3" "distinct c3" "set c3 \<subseteq> {t}"
    using slot_instantiator[of d r t a c2 ks KDouble] dr k 2(2,3) by auto
  obtain c4 where 4: "unionIfDefined (instantiatorIf ks KBool r) (call_getChildren d (instantiatorIf ks KBool r)) c3 = Inr c4" "distinct c4" "set c4 \<subseteq> {t}"
    using slot_instantiator[of d r t a c3 ks KBool] dr k 3(2,3) by auto
  obtain c5 where 5: "unionIfDefined (instantiatorIf ks KString r) (call_getChildren d (instantiatorIf ks KString r)) c4 = Inr c5" "distinct c5" "set c5 \<subseteq> {t}"
    using slot_instantiator[of d r t a c4 ks KString] dr k 4(2,3) by auto
  have "getChildren d (describedTransformer ks r) = Inr c5"
    using 1 2 3 4 5 by (simp add: describedTransformer_def bindE_def unionIfDefined_def)
  moreover have "OrderedSet_add t c5 = [t]"
    using 5(2,3) by (rule OrderedSet_add_only)
  ultimately show "Transformation_getChildren d (Transformation r (describedTransformer ks r)) = Inr [t]"
    using dr by (simp add: Transformation_getChildren_def targetType_def bindE_def)
qed

text \<open>The amended claim C3 at scenario B.\<close>

theorem Transformation_children_witness:
  "getChildren (newGraph unionB) (UnionInstantiationTransformer (TypeRef 1 6)) = Inr [reconstitutedB]
   \<and> newGraph unionB (TypeRef 1 2) = Inr (Type (TypeRef 1 2) KInteger [] [], [])
   \<and> (\<exists>cs'. Transformation_getChildren (newGraph unionB)
               (Transformation (TypeRef 1 2) (UnionInstantiationTransformer (TypeRef 1 6))) = Inr cs'
            \<and> distinct cs' \<and> set cs' = {reconstitutedB, Type (TypeRef 1 2) KInteger [] []})
   \<and> newGraph unionB (TypeRef 1 6) = Inr (reconstitutedB, []) \<and> kind reconstitutedB = KUnion
   \<and> Transformation_getChildren (newGraph unionB)
         (Transformation (TypeRef 1 6)
            (describedTransformer [KNull, KInteger, KDouble, KBool, KString] (TypeRef 1 6))) =
       Inr [reconstitutedB]"
proof -
  have h1: "getChildren (newGraph unionB) (UnionInstantiationTransformer (TypeRef 1 6)) = Inr [reconstitutedB]"
    by code_simp
  have h2: "newGraph unionB (TypeRef 1 2) = Inr (Type (TypeRef 1 2) KInteger [] [], [])"
    by code_simp
  have h3: "newGraph unionB (TypeRef 1 6) = Inr (reconstitutedB, [])"
    by code_simp
  have h4: "kind reconstitutedB = KUnion"
    by (simp add: reconstitutedB_def)
  note a = Transformation_children[of "newGraph unionB" "UnionInstantiationTransformer (TypeRef 1 6)"
      "[reconstitutedB]" "TypeRef 1 2" "Type (TypeRef 1 2) KInteger [] []" "[]"
      "[KNull, KInteger, KDouble, KBool, KString]"]
  note b = Transformation_children[of "newGraph unionB" "UnionInstantiationTransformer (TypeRef 1 6)"
      "[reconstitutedB]" "TypeRef 1 6" reconstitutedB "[]"
      "[KNull, KInteger, KDouble, KBool, KString]"]
  have c1: "\<exists>cs'. Transformation_getChildren (newGraph unionB)
               (Transformation (TypeRef 1 2) (UnionInstantiationTransformer (TypeRef 1 6))) = Inr cs'
            \<and> distinct cs' \<and> set cs' = {reconstitutedB, Type (TypeRef 1 2) KInteger [] []}"
    using a h1 h2 by auto
  have c2: "Transformation_getChildren (newGraph unionB)
         (Transformation (TypeRef 1 6)
            (describedTransformer [KNull, KInteger, KDouble, KBool, KString] (TypeRef 1 6))) =
       Inr [reconstitutedB]"
    using b h3 h4 by blast
  from h1 h2 h3 h4 c1 c2 show ?thesis by blast
qed

text \<open>
  Claim C4: on a group whose union has no members, the replacer throws the assertion
  failure before it calls the builder. Whatever the builder is, its state is untouched, so
  no transformer and no placeholder were built.
\<close>

theorem replace_empty_union_aborts:
  "members u = [] \<Longrightarrow>
     replace (u # rest) builder forwardingRef s =
       (Inl (AssertionFailed ''We can't have empty unions''), s)"
  by (simp add: replace_def first_def defined_def assert_def bindB_def throwB_def returnB_def)

text \<open>Claim C4 at the union without members.\<close>

theorem replace_empty_union_aborts_witness:
  "members emptyUnion = []
   \<and> replace [emptyUnion] specBuilder (TypeRef 1 0) (initialState emptyUnion) =
       (Inl (AssertionFailed ''We can't have empty unions''), initialState emptyUnion)"
proof -
  have h: "members emptyUnion = []" by (simp add: emptyUnion_def)
  from replace_empty_union_aborts[OF h, of "[]" specBuilder "TypeRef 1 0" "initialState emptyUnion"] h
  show ?thesis by simp
qed

text \<open>
  Claim C5: with TypeRefs compared by identity, \<^verbatim>\<open>t.equals(u)\<close> is true exactly when
  \<open>t\<close> and \<open>u\<close> are the same variant with equal fields, recursively, which for values of
  a datatype is their equality; and two Transformers that are \<^verbatim>\<open>equals\<close>-equal have the
  same \<^verbatim>\<open>hashCode\<close>, whatever the hash parameters and whichever values are shared
  objects.
\<close>

theorem equals_structural_hash_consistent:
  "equals TypeRef_equals shared t (Xf u) = Inr (t = u)
   \<and> (equals TypeRef_equals shared t (Xf u) = Inr True \<longrightarrow> hashCode hp t = hashCode hp u)"
  using equals_is_eq(1)[of shared t] by auto

text \<open>
  Claim C5 on two Transformers built independently, two objects, and on two that differ in
  one TypeRef.
\<close>

theorem equals_structural_hash_consistent_witness:
  "equals TypeRef_equals (\<lambda>v. False)
       (new_DecodingTransformer [Undefined, Xf (UnionInstantiationTransformer (TypeRef 1 3)), Undefined,
          Undefined, Xf (UnionInstantiationTransformer (TypeRef 1 3))])
       (Xf (describedTransformer [KInteger, KString] (TypeRef 1 3))) = Inr True
   \<and> hashCode sampleHashing
       (new_DecodingTransformer [Undefined, Xf (UnionInstantiationTransformer (TypeRef 1 3)), Undefined,
          Undefined, Xf (UnionInstantiationTransformer (TypeRef 1 3))]) =
     hashCode sampleHashing (describedTransformer [KInteger, KString] (TypeRef 1 3))
   \<and> equals TypeRef_equals (\<lambda>v. False) (describedTransformer [KInteger, KString] (TypeRef 1 3))
       (Xf (describedTransformer [KInteger, KString] (TypeRef 1 2))) = Inr False"
proof -
  let ?t = "new_DecodingTransformer [Undefined, Xf (UnionInstantiationTransformer (TypeRef 1 3)),
     Undefined, Undefined, Xf (UnionInstantiationTransformer (TypeRef 1 3))]"
  let ?u = "describedTransformer [KInteger, KString] (TypeRef 1 3)"
  let ?w = "describedTransformer [KInteger, KString] (TypeRef 1 2)"
  have e: "?t = ?u"
    by (simp add: new_DecodingTransformer_def argument_def describedTransformer_def instantiatorIf_def)
  have n: "?u \<noteq> ?w"
    by (simp add: describedTransformer_def instantiatorIf_def)
  from equals_structural_hash_consistent[where shared = "\<lambda>v. False" and t = ?t and u = ?u
      and hp = sampleHashing]
    equals_structural_hash_consistent[where shared = "\<lambda>v. False" and t = ?u and u = ?w
      and hp = sampleHashing] e n
  show ?thesis by simp
qed

text \<open>
  Claim C6: \<^verbatim>\<open>getChildren\<close> of a DecodingTransformer returns exactly when every slot
  answers, and what it returns is, without duplicates, the union of the children of the
  slots that hold a sub-transformer. \<^verbatim>\<open>getChildren\<close> of a UnionInstantiationTransformer
  whose reference dereferences to a union returns that union alone.
\<close>

theorem getChildren_exact:
  "((\<exists>cs. getChildren d (DecodingTransformer n i db b s a ob) = Inr cs) \<longleftrightarrow>
      (\<forall>v \<in> set [n, i, db, b, s, a, ob]. slotAnswers d v))
   \<and> (getChildren d (DecodingTransformer n i db b s a ob) = Inr cs \<longrightarrow>
        distinct cs \<and>
        set cs = slotChildren d n \<union> slotChildren d i \<union> slotChildren d db \<union> slotChildren d b \<union>
                 slotChildren d s \<union> slotChildren d a \<union> slotChildren d ob)
   \<and> (d r = Inr (u, at) \<and> kind u = KUnion \<longrightarrow>
        getChildren d (UnionInstantiationTransformer r) = Inr [u])"
proof -
  have answers: "(\<exists>cs. getChildren d (DecodingTransformer n i db b s a ob) = Inr cs) \<longleftrightarrow>
      (\<forall>v \<in> set [n, i, db, b, s, a, ob]. slotAnswers d v)"
    using DT_ok[of d n i db b s a ob] DT_answers[of d n i db b s a ob] by auto
  have exact: "getChildren d (DecodingTransformer n i db b s a ob) = Inr cs \<longrightarrow>
        distinct cs \<and>
        set cs = slotChildren d n \<union> slotChildren d i \<union> slotChildren d db \<union> slotChildren d b \<union>
                 slotChildren d s \<union> slotChildren d a \<union> slotChildren d ob"
    using DT_children[of d n i db b s a ob cs] by blast
  have single: "d r = Inr (u, at) \<and> kind u = KUnion \<longrightarrow>
        getChildren d (UnionInstantiationTransformer r) = Inr [u]"
    using UIT_children[of d r u at] by simp
  from answers exact single show ?thesis by (intro conjI)
qed

text \<open>Claim C6 on the new generation of the later pass.\<close>

theorem getChildren_exact_witness:
  "getChildren laterGraph
       (DecodingTransformer Undefined (Xf (UnionInstantiationTransformer (TypeRef 2 2))) Undefined
          Undefined (Xf (UnionInstantiationTransformer (TypeRef 2 2))) Undefined Undefined) =
     Inr [laterUnion]
   \<and> slotChildren laterGraph Undefined \<union>
       slotChildren laterGraph (Xf (UnionInstantiationTransformer (TypeRef 2 2))) = {laterUnion}
   \<and> laterGraph (TypeRef 2 2) = Inr (laterUnion, []) \<and> kind laterUnion = KUnion
   \<and> getChildren laterGraph (UnionInstantiationTransformer (TypeRef 2 2)) = Inr [laterUnion]"
proof -
  let ?x = "Xf (UnionInstantiationTransformer (TypeRef 2 2))"
  have h1: "getChildren laterGraph
       (DecodingTransformer Undefined ?x Undefined Undefined ?x Undefined Undefined) = Inr [laterUnion]"
    by code_simp
  have h2: "laterGraph (TypeRef 2 2) = Inr (laterUnion, [])" by code_simp
  have h3: "kind laterUnion = KUnion" by (simp add: laterUnion_def)
  note g = getChildren_exact[of laterGraph Undefined ?x Undefined Undefined ?x Undefined Undefined
      "[laterUnion]" "TypeRef 2 2" laterUnion "[]"]
  have c1: "slotChildren laterGraph Undefined \<union> slotChildren laterGraph ?x = {laterUnion}"
    using g h1 by auto
  have c2: "getChildren laterGraph (UnionInstantiationTransformer (TypeRef 2 2)) = Inr [laterUnion]"
    using g h2 h3 by blast
  from h1 h2 h3 c1 c2 show ?thesis by blast
qed

text \<open>
  Claim C7: for every builder, every Transformer and every state of the builder,
  \<^verbatim>\<open>reconstitute\<close> returns \<open>t'\<close> exactly when the slots of \<open>t\<close> are well typed, \<open>t'\<close> has
  the shape of \<open>t\<close>, and the TypeRefs of \<open>t'\<close> are what \<^verbatim>\<open>builder.reconstituteTypeRef\<close>
  returns for the TypeRefs of \<open>t\<close>, called one after the other in their order; likewise
  for a Transformation, whose target is reconstituted first. Two Transformers of one shape
  are of the same variant and have the same empty slots. When moreover every answer of
  the builder is recorded in a cache that only grows, in all states that satisfy an
  invariant \<open>P\<close>, the result is the image of \<open>t\<close> under the cache of the final state.
\<close>

theorem reconstitute_exact:
  "(reconstitute builder t s = (Inr t', s') \<longleftrightarrow>
      wellTyped t \<and> shape t' = shape t \<and>
      mapB (reconstituteTypeRef builder) (refList t) s = (Inr (refList t'), s'))
   \<and> (Transformation_reconstitute builder (Transformation target t) s =
         (Inr (Transformation target' t'), s') \<longleftrightarrow>
      wellTyped t \<and> shape t' = shape t \<and>
      mapB (reconstituteTypeRef builder) (target # refList t) s = (Inr (target' # refList t'), s'))
   \<and> (shape t' = shape t \<longrightarrow>
      sameVariant t' (Xf t) \<and>
      map (\<lambda>v. v = Undefined) (slots t') = map (\<lambda>v. v = Undefined) (slots t))
   \<and> ((\<forall>r \<in> insert target (set (refList t)). \<forall>s1 r' s2.
          P s1 \<and> reconstituteTypeRef builder r s1 = (Inr r', s2) \<longrightarrow>
          P s2 \<and> cache s2 r = Some r' \<and> cache s1 \<subseteq>\<^sub>m cache s2) \<and> P s \<longrightarrow>
       (reconstitute builder t s = (Inr t', s') \<longrightarrow>
          t' = imageUnder (\<lambda>r. the (cache s' r)) t \<and> cache s \<subseteq>\<^sub>m cache s' \<and> P s') \<and>
       (Transformation_reconstitute builder (Transformation target t) s = (Inr x', s') \<longrightarrow>
          x' = Transformation (the (cache s' target)) (imageUnder (\<lambda>r. the (cache s' r)) t) \<and>
          cache s \<subseteq>\<^sub>m cache s' \<and> P s'))"
proof -
  have 4: "(\<forall>r \<in> insert target (set (refList t)). \<forall>s1 r' s2.
          P s1 \<and> reconstituteTypeRef builder r s1 = (Inr r', s2) \<longrightarrow>
          P s2 \<and> cache s2 r = Some r' \<and> cache s1 \<subseteq>\<^sub>m cache s2) \<and> P s \<longrightarrow>
       (reconstitute builder t s = (Inr t', s') \<longrightarrow>
          t' = imageUnder (\<lambda>r. the (cache s' r)) t \<and> cache s \<subseteq>\<^sub>m cache s' \<and> P s') \<and>
       (Transformation_reconstitute builder (Transformation target t) s = (Inr x', s') \<longrightarrow>
          x' = Transformation (the (cache s' target)) (imageUnder (\<lambda>r. the (cache s' r)) t) \<and>
          cache s \<subseteq>\<^sub>m cache s' \<and> P s')"
  proof (intro impI conjI; elim conjE)
    assume H: "\<forall>r \<in> insert target (set (refList t)). \<forall>s1 r' s2.
          P s1 \<and> reconstituteTypeRef builder r s1 = (Inr r', s2) \<longrightarrow>
          P s2 \<and> cache s2 r = Some r' \<and> cache s1 \<subseteq>\<^sub>m cache s2" and p: "P s"
      and r: "reconstitute builder t s = (Inr t', s')"
    have c: "t' = imageUnder (\<lambda>r. the (cache s' r)) t \<and> cache s \<subseteq>\<^sub>m cache s' \<and> P s'"
    proof (rule reconstitute_cache[where P = P and builder = builder and s = s])
      fix r t1 r' t2
      assume "r \<in> set (refList t)" and h: "P t1" "reconstituteTypeRef builder r t1 = (Inr r', t2)"
      then have "r \<in> insert target (set (refList t))" by simp
      from H[rule_format, OF this, of t1 r' t2] h
      show "P t2 \<and> cache t2 r = Some r' \<and> cache t1 \<subseteq>\<^sub>m cache t2" by blast
    qed (rule p, rule r)
    from c show "t' = imageUnder (\<lambda>r. the (cache s' r)) t" by blast
    from c show "cache s \<subseteq>\<^sub>m cache s'" by blast
    from c show "P s'" by blast
  next
    assume H: "\<forall>r \<in> insert target (set (refList t)). \<forall>s1 r' s2.
          P s1 \<and> reconstituteTypeRef builder r s1 = (Inr r', s2) \<longrightarrow>
          P s2 \<and> cache s2 r = Some r' \<and> cache s1 \<subseteq>\<^sub>m cache s2" and p: "P s"
      and r: "Transformation_reconstitute builder (Transformation target t) s = (Inr x', s')"
    note c = Transformation_reconstitute_cache[OF H p r]
    from c show "x' = Transformation (the (cache s' target)) (imageUnder (\<lambda>r. the (cache s' r)) t)"
      by blast
    from c show "cache s \<subseteq>\<^sub>m cache s'" by blast
    from c show "P s'" by blast
  qed
  have 3: "shape t' = shape t \<longrightarrow>
      sameVariant t' (Xf t) \<and>
      map (\<lambda>v. v = Undefined) (slots t') = map (\<lambda>v. v = Undefined) (slots t)"
    using shape_variant[of t' t] by blast
  from reconstitute_iff[of builder t s t' s']
    Transformation_reconstitute_iff[of builder target t s target' t' s'] 3 4
  show ?thesis by (intro conjI)
qed

text \<open>
  Claim C7 on a pass that has reconstituted nothing yet. The two unions are not in the
  cache: the first call for each allocates its image and the second finds it, and the
  image of a union depends on what was reconstituted before it, so that the transformer
  alone and the transformer after the target get different references. The Transformer
  that \<^verbatim>\<open>replace\<close> builds for scenario A holds a TypeRef in its null slot, is not well
  typed, and \<^verbatim>\<open>reconstitute\<close> throws on it.
\<close>

theorem reconstitute_exact_witness:
  "oldGraphOk twoUnionsState
   \<and> wellTyped (onTwoUnions (TypeRef 0 4) (TypeRef 0 2))
   \<and> fst (reconstitute specBuilder (onTwoUnions (TypeRef 0 4) (TypeRef 0 2)) twoUnionsState) =
       Inr (onTwoUnions (TypeRef 1 2) (TypeRef 1 4))
   \<and> onTwoUnions (TypeRef 1 2) (TypeRef 1 4) =
       imageUnder
         (\<lambda>r. the (cacheOf
            (snd (reconstitute specBuilder (onTwoUnions (TypeRef 0 4) (TypeRef 0 2)) twoUnionsState)) r))
         (onTwoUnions (TypeRef 0 4) (TypeRef 0 2))
   \<and> fst (Transformation_reconstitute specBuilder
            (Transformation (TypeRef 0 2) (onTwoUnions (TypeRef 0 4) (TypeRef 0 2))) twoUnionsState) =
       Inr (Transformation (TypeRef 1 2) (onTwoUnions (TypeRef 1 4) (TypeRef 1 2)))
   \<and> sameVariant (onTwoUnions (TypeRef 1 2) (TypeRef 1 4)) (Xf (onTwoUnions (TypeRef 0 4) (TypeRef 0 2)))
   \<and> map (\<lambda>v. v = Undefined) (slots (onTwoUnions (TypeRef 1 2) (TypeRef 1 4))) =
       map (\<lambda>v. v = Undefined) (slots (onTwoUnions (TypeRef 0 4) (TypeRef 0 2)))
   \<and> map_option transformer (placeholderTransformation unionA) =
       Some (DecodingTransformer (Ref (TypeRef 1 4)) Undefined
          (Xf (UnionInstantiationTransformer (TypeRef 1 1))) Undefined Undefined
          (Xf (UnionInstantiationTransformer (TypeRef 1 2))) Undefined)
   \<and> \<not> wellTyped (DecodingTransformer (Ref (TypeRef 1 4)) Undefined
          (Xf (UnionInstantiationTransformer (TypeRef 1 1))) Undefined Undefined
          (Xf (UnionInstantiationTransformer (TypeRef 1 2))) Undefined)
   \<and> fst (reconstitute specBuilder (DecodingTransformer (Ref (TypeRef 1 4)) Undefined
          (Xf (UnionInstantiationTransformer (TypeRef 1 1))) Undefined Undefined
          (Xf (UnionInstantiationTransformer (TypeRef 1 2))) Undefined) twoUnionsState) =
       Inl (TypeError ''reconstitute is not a function'')"
proof -
  let ?old = "onTwoUnions (TypeRef 0 4) (TypeRef 0 2)"
  let ?new1 = "onTwoUnions (TypeRef 1 2) (TypeRef 1 4)"
  let ?new2 = "onTwoUnions (TypeRef 1 4) (TypeRef 1 2)"
  let ?rt = "reconstituteTypeRef specBuilder"
  let ?s1 = "snd (mapB ?rt (refList ?old) twoUnionsState)"
  let ?s2 = "snd (mapB ?rt (TypeRef 0 2 # refList ?old) twoUnionsState)"
  have p: "oldGraphOk twoUnionsState" by code_simp
  have w: "wellTyped ?old" by (simp add: onTwoUnions_def)
  have sh1: "shape ?new1 = shape ?old" by (simp add: onTwoUnions_def shape_simps)
  have sh2: "shape ?new2 = shape ?old" by (simp add: onTwoUnions_def shape_simps)
  have m1: "mapB ?rt (refList ?old) twoUnionsState = (Inr (refList ?new1), ?s1)" by code_simp
  have m2: "mapB ?rt (TypeRef 0 2 # refList ?old) twoUnionsState =
      (Inr (TypeRef 1 2 # refList ?new2), ?s2)" by code_simp
  have H: "\<forall>r \<in> insert (TypeRef 0 2) (set (refList ?old)). \<forall>s1 r' s2.
      oldGraphOk s1 \<and> ?rt r s1 = (Inr r', s2) \<longrightarrow>
      oldGraphOk s2 \<and> cacheOf s2 r = Some r' \<and> cacheOf s1 \<subseteq>\<^sub>m cacheOf s2"
    using specBuilder_records by blast
  note a = reconstitute_exact[where builder = specBuilder and t = ?old and s = twoUnionsState
      and t' = ?new1 and s' = ?s1 and target = "TypeRef 0 2" and P = oldGraphOk and cache = cacheOf]
  note b = reconstitute_exact[where builder = specBuilder and t = ?old and s = twoUnionsState
      and t' = ?new2 and s' = ?s2 and target = "TypeRef 0 2" and target' = "TypeRef 1 2"
      and P = oldGraphOk and cache = cacheOf]
  have r1: "reconstitute specBuilder ?old twoUnionsState = (Inr ?new1, ?s1)"
    using a w sh1 m1 by blast
  have r2: "Transformation_reconstitute specBuilder (Transformation (TypeRef 0 2) ?old) twoUnionsState =
      (Inr (Transformation (TypeRef 1 2) ?new2), ?s2)"
    using b w sh2 m2 by blast
  have c1: "?new1 = imageUnder (\<lambda>r. the (cacheOf ?s1 r)) ?old"
    using a H p r1 by blast
  have v: "sameVariant ?new1 (Xf ?old) \<and>
      map (\<lambda>v. v = Undefined) (slots ?new1) = map (\<lambda>v. v = Undefined) (slots ?old)"
    using a sh1 by blast
  have e1: "fst (reconstitute specBuilder ?old twoUnionsState) = Inr ?new1" using r1 by simp
  have e2: "snd (reconstitute specBuilder ?old twoUnionsState) = ?s1" using r1 by simp
  have e3: "fst (Transformation_reconstitute specBuilder (Transformation (TypeRef 0 2) ?old)
      twoUnionsState) = Inr (Transformation (TypeRef 1 2) ?new2)" using r2 by simp
  have k1: "map_option transformer (placeholderTransformation unionA) =
       Some (DecodingTransformer (Ref (TypeRef 1 4)) Undefined
          (Xf (UnionInstantiationTransformer (TypeRef 1 1))) Undefined Undefined
          (Xf (UnionInstantiationTransformer (TypeRef 1 2))) Undefined)" by code_simp
  have k2: "\<not> wellTyped (DecodingTransformer (Ref (TypeRef 1 4)) Undefined
          (Xf (UnionInstantiationTransformer (TypeRef 1 1))) Undefined Undefined
          (Xf (UnionInstantiationTransformer (TypeRef 1 2))) Undefined)" by simp
  have k3: "fst (reconstitute specBuilder (DecodingTransformer (Ref (TypeRef 1 4)) Undefined
          (Xf (UnionInstantiationTransformer (TypeRef 1 1))) Undefined Undefined
          (Xf (UnionInstantiationTransformer (TypeRef 1 2))) Undefined) twoUnionsState) =
       Inl (TypeError ''reconstitute is not a function'')" by code_simp
  from c1 have c1': "?new1 = imageUnder
         (\<lambda>r. the (cacheOf (snd (reconstitute specBuilder ?old twoUnionsState)) r)) ?old"
    unfolding e2 .
  from p w e1 c1' e3 v k1 k2 k3 show ?thesis by (intro conjI) blast+
qed

text \<open>
  Claim C8: when the TypeRef of a UnionInstantiationTransformer dereferences to a node
  that is not a union, \<^verbatim>\<open>unionType\<close> panics and so does \<^verbatim>\<open>getChildren\<close>; whatever
  \<^verbatim>\<open>unionType\<close> returns is a union.
\<close>

theorem unionType_fails_fast:
  "(d r = Inr (t, at) \<and> kind t \<noteq> KUnion \<longrightarrow>
      unionType d r = Inl (Panic ''Union instantiator with the wrong type'') \<and>
      getChildren d (UnionInstantiationTransformer r) =
        Inl (Panic ''Union instantiator with the wrong type''))
   \<and> (unionType d r = Inr u \<longrightarrow> kind u = KUnion)"
  using unionType_panic[of d r t at] unionType_Inr[of d r u]
  by (auto simp: bindE_def)

text \<open>Claim C8 on the integer node and on the union of the later pass.\<close>

theorem unionType_fails_fast_witness:
  "laterGraph (TypeRef 2 0) = Inr (Type (TypeRef 2 0) KInteger [] [], [])
   \<and> unionType laterGraph (TypeRef 2 0) = Inl (Panic ''Union instantiator with the wrong type'')
   \<and> getChildren laterGraph (UnionInstantiationTransformer (TypeRef 2 0)) =
       Inl (Panic ''Union instantiator with the wrong type'')
   \<and> unionType laterGraph (TypeRef 2 2) = Inr laterUnion \<and> kind laterUnion = KUnion"
proof -
  have h1: "laterGraph (TypeRef 2 0) = Inr (Type (TypeRef 2 0) KInteger [] [], [])" by code_simp
  have h2: "kind (Type (TypeRef 2 0) KInteger [] []) \<noteq> KUnion" by simp
  have h3: "unionType laterGraph (TypeRef 2 2) = Inr laterUnion" by code_simp
  from unionType_fails_fast[of laterGraph "TypeRef 2 0" "Type (TypeRef 2 0) KInteger [] []" "[]" laterUnion]
    unionType_fails_fast[of laterGraph "TypeRef 2 2" "Type (TypeRef 2 0) KInteger [] []" "[]" laterUnion]
    h1 h2 h3
  show ?thesis by blast
qed

text \<open>
  Claim C10: \<^verbatim>\<open>t.equals(x)\<close> returns false, and does not throw, for every \<open>x\<close> that is
  not an instance of the class of \<open>t\<close>, even when \<^verbatim>\<open>TypeRef.equals\<close> would throw, and
  whichever values are shared objects.
\<close>

theorem equals_other_variant_false:
  "\<not> sameVariant t x \<Longrightarrow> equals re shared t x = Inr False"
  by (cases t) (auto split: jsval.splits transformer.splits)

text \<open>
  Claim C10 on a Transformer of the other variant, \<^verbatim>\<open>undefined\<close>, \<^verbatim>\<open>null\<close>, a plain
  object and a TypeRef, with a \<^verbatim>\<open>TypeRef.equals\<close> that always throws.
\<close>

theorem equals_other_variant_false_witness:
  "equals throwingRefEquals (\<lambda>v. True) (UnionInstantiationTransformer (TypeRef 1 3))
       (Xf (describedTransformer [KInteger, KString] (TypeRef 1 3))) = Inr False
   \<and> equals throwingRefEquals (\<lambda>v. True) (describedTransformer [KInteger, KString] (TypeRef 1 3))
       (Xf (UnionInstantiationTransformer (TypeRef 1 3))) = Inr False
   \<and> equals throwingRefEquals (\<lambda>v. True) (UnionInstantiationTransformer (TypeRef 1 3)) Undefined = Inr False
   \<and> equals throwingRefEquals (\<lambda>v. True) (UnionInstantiationTransformer (TypeRef 1 3)) Null = Inr False
   \<and> equals throwingRefEquals (\<lambda>v. True) (describedTransformer [KInteger, KString] (TypeRef 1 3)) (Obj 0) = Inr False
   \<and> equals throwingRefEquals (\<lambda>v. True) (describedTransformer [KInteger, KString] (TypeRef 1 3))
       (Ref (TypeRef 1 3)) = Inr False"
proof -
  let ?u = "UnionInstantiationTransformer (TypeRef 1 3)"
  let ?d = "describedTransformer [KInteger, KString] (TypeRef 1 3)"
  have 1: "\<not> sameVariant ?u (Xf ?d)" by (simp add: describedTransformer_def)
  have 2: "\<not> sameVariant ?d (Xf ?u)" by (simp add: describedTransformer_def)
  have 3: "\<not> sameVariant ?u Undefined" by simp
  have 4: "\<not> sameVariant ?u Null" by simp
  have 5: "\<not> sameVariant ?d (Obj 0)" by (simp add: describedTransformer_def)
  have 6: "\<not> sameVariant ?d (Ref (TypeRef 1 3))" by (simp add: describedTransformer_def)
  from equals_other_variant_false[OF 1, where re = throwingRefEquals and shared = "\<lambda>v. True"]
    equals_other_variant_false[OF 2, where re = throwingRefEquals and shared = "\<lambda>v. True"]
    equals_other_variant_false[OF 3, where re = throwingRefEquals and shared = "\<lambda>v. True"]
    equals_other_variant_false[OF 4, where re = throwingRefEquals and shared = "\<lambda>v. True"]
    equals_other_variant_false[OF 5, where re = throwingRefEquals and shared = "\<lambda>v. True"]
    equals_other_variant_false[OF 6, where re = throwingRefEquals and shared = "\<lambda>v. True"]
  show ?thesis by blast
qed

end
